theory Spec2Isabelle
  imports Main
begin

section \<open>Python strings\<close>

text \<open>
  Strings are character lists. The commands the patcher sends and the replies it inspects
  are ASCII; a character stands for a code point below 256.
\<close>

definition startswith :: "string \<Rightarrow> string \<Rightarrow> bool" where
  "startswith s p = (take (length p) s = p)"

definition endswith :: "string \<Rightarrow> string \<Rightarrow> bool" where
  "endswith s p = (length p \<le> length s \<and> drop (length s - length p) s = p)"

text \<open>\<open>py_in sub s\<close> is Python's \<^verbatim>\<open>sub in s\<close> on strings.\<close>

fun py_in :: "string \<Rightarrow> string \<Rightarrow> bool" where
  "py_in sub [] = (sub = [])"
| "py_in sub (c # cs) = (take (length sub) (c # cs) = sub \<or> py_in sub cs)"

text \<open>\<^verbatim>\<open>str.isspace\<close> on the code points below 256.\<close>

definition py_isspace :: "char \<Rightarrow> bool" where
  "py_isspace c =
     (c \<in> set [CHR 0x09, CHR 0x0A, CHR 0x0B, CHR 0x0C, CHR 0x0D, CHR 0x1C, CHR 0x1D,
               CHR 0x1E, CHR 0x1F, CHR 0x20, CHR 0x85, CHR 0xA0])"

definition lstrip :: "string \<Rightarrow> string" where
  "lstrip s = dropWhile py_isspace s"

definition rstrip :: "string \<Rightarrow> string" where
  "rstrip s = rev (dropWhile py_isspace (rev s))"

definition strip :: "string \<Rightarrow> string" where
  "strip s = rstrip (lstrip s)"

text \<open>\<^verbatim>\<open>s.rstrip('/')\<close>.\<close>

definition rstrip_slash :: "string \<Rightarrow> string" where
  "rstrip_slash s = rev (dropWhile (\<lambda>c. c = CHR ''/'') (rev s))"

text \<open>
  \<^verbatim>\<open>str.splitlines\<close>: the line boundaries below 256 are LF, CR, CR LF, VT, FF, FS, GS,
  RS and NEL; no empty last line is produced.
\<close>

definition is_linebreak :: "char \<Rightarrow> bool" where
  "is_linebreak c =
     (c \<in> set [CHR 0x0A, CHR 0x0B, CHR 0x0C, CHR 0x1C, CHR 0x1D, CHR 0x1E, CHR 0x85])"

fun splitlines_from :: "string \<Rightarrow> string \<Rightarrow> string list" where
  "splitlines_from cur [] = (if cur = [] then [] else [rev cur])"
| "splitlines_from cur [c] =
     (if c = CHR 0x0D \<or> is_linebreak c then [rev cur] else [rev (c # cur)])"
| "splitlines_from cur (c # d # cs) =
     (if c = CHR 0x0D \<and> d = CHR 0x0A then rev cur # splitlines_from [] cs
      else if c = CHR 0x0D \<or> is_linebreak c then rev cur # splitlines_from [] (d # cs)
      else splitlines_from (c # cur) (d # cs))"

definition splitlines :: "string \<Rightarrow> string list" where
  "splitlines s = splitlines_from [] s"

text \<open>An f-string field holding an \<^verbatim>\<open>Optional[str]\<close>: \<^verbatim>\<open>None\<close> prints as \<^verbatim>\<open>None\<close>.\<close>

definition fmt_opt :: "string option \<Rightarrow> string" where
  "fmt_opt x = (case x of None \<Rightarrow> ''None'' | Some s \<Rightarrow> s)"

text \<open>Truthiness of an \<^verbatim>\<open>Optional[str]\<close>: neither \<^verbatim>\<open>None\<close> nor empty.\<close>

definition truthy_str :: "string option \<Rightarrow> bool" where
  "truthy_str x = (case x of None \<Rightarrow> False | Some s \<Rightarrow> s \<noteq> [])"

section \<open>Data model\<close>

text \<open>The dataclass \<^verbatim>\<open>ESXiHost\<close>.\<close>

record ESXiHost =
  name :: string
  ip :: string
  username :: string
  password :: string
  ssh_port :: int
  api_port :: int

text \<open>The configuration fields of \<^verbatim>\<open>ESXiStandalonePatcher\<close> after \<^verbatim>\<open>_load_config\<close>.\<close>

record patcher =
  hosts :: "ESXiHost list"
  patch_file :: "string option"
  patch_name :: "string option"
  timeout :: int

section \<open>The outside world\<close>

text \<open>
  Every call that leaves the process (remote shell, management API, sockets, local file
  system, sleeping) is a primitive. Its answer and the time it takes come from an
  environment that sees the whole history; the call is appended to a trace together with
  the clock value at which it was issued and the answer it got. A call that raises is the
  answer \<open>Raised\<close>.
\<close>

datatype 'a outcome = Ok 'a | Raised string

text \<open>
  What \<^verbatim>\<open>exec_command\<close> and the reads after it produce: the exit status with the
  accumulated standard output and standard error, or an exception.
\<close>

datatype ssh_outcome = Exited int string string | SshRaised string

datatype task_state = Queued | Running | Success | Error

datatype parent_kind = NoParent | ClusterComputeResource | OtherParent

text \<open>The methods \<^verbatim>\<open>process_host\<close> calls; used to mark invocations and returns in the trace.\<close>

datatype callee =
    M_connect_api | M_get_host_system | M_is_host_in_cluster | M_enable_services_via_api
  | M_wait_for_ssh | M_ssh_connect | M_find_boot_datastore | M_copy_patch_via_scp
  | M_enter_maintenance_mode | M_check_and_shutdown_vms | M_install_patch_via_ssh
  | M_verify_patch_installation | M_cleanup_patch_file | M_reboot_host
  | M_wait_for_host_reboot | M_exit_maintenance_mode | M_start_vms_after_reboot
  | M_disable_services_via_api

datatype event =
    Sleep nat
  | SshCommand nat string nat ssh_outcome
  | TcpProbe string int "int outcome"
  | SmartConnect string int "nat outcome"
  | HostSystemView nat "nat list outcome"
  | ReadParent nat "parent_kind outcome"
  | EnableServices nat bool
  | DisableServices nat bool
  | SshConnect string int "nat outcome"
  | SshClose nat "unit outcome"
  | Disconnect nat "unit outcome"
  | PathExists string bool
  | GetSize string "int outcome"
  | SftpOpen nat "unit outcome"
  | SftpStat string "int outcome"
  | SftpPut string string "unit outcome"
  | SftpClose "unit outcome"
  | ReadInMaintenanceMode nat "bool outcome"
  | EnterMaintenanceModeCall nat int "unit outcome"
  | ExitMaintenanceModeCall nat int "unit outcome"
  | ReadTaskState "task_state outcome"
  | RebootCall nat "unit outcome"
  | ReadFullName nat "string outcome"
  | Invoke callee
  | Return callee bool

record world =
  clock :: int
  trace :: "(int \<times> event) list"

text \<open>
  The environment: for each primitive, the answer and the duration, given the world so far.
  Service instances, host objects and shell clients are handles (natural numbers).
\<close>

record env =
  ssh_run :: "world \<Rightarrow> nat \<Rightarrow> string \<Rightarrow> nat \<Rightarrow> ssh_outcome \<times> nat"
  tcp_probe :: "world \<Rightarrow> string \<Rightarrow> int \<Rightarrow> int outcome \<times> nat"
  smart_connect :: "world \<Rightarrow> string \<Rightarrow> int \<Rightarrow> nat outcome \<times> nat"
  host_system_view :: "world \<Rightarrow> nat \<Rightarrow> nat list outcome \<times> nat"
  read_parent :: "world \<Rightarrow> nat \<Rightarrow> parent_kind outcome \<times> nat"
  enable_services :: "world \<Rightarrow> nat \<Rightarrow> bool \<times> nat"
  disable_services :: "world \<Rightarrow> nat \<Rightarrow> bool \<times> nat"
  ssh_connect_to :: "world \<Rightarrow> string \<Rightarrow> int \<Rightarrow> nat outcome \<times> nat"
  ssh_close :: "world \<Rightarrow> nat \<Rightarrow> unit outcome \<times> nat"
  disconnect :: "world \<Rightarrow> nat \<Rightarrow> unit outcome \<times> nat"
  path_exists :: "world \<Rightarrow> string \<Rightarrow> bool \<times> nat"
  get_size :: "world \<Rightarrow> string \<Rightarrow> int outcome \<times> nat"
  sftp_open :: "world \<Rightarrow> nat \<Rightarrow> unit outcome \<times> nat"
  sftp_stat :: "world \<Rightarrow> string \<Rightarrow> int outcome \<times> nat"
  sftp_put :: "world \<Rightarrow> string \<Rightarrow> string \<Rightarrow> unit outcome \<times> nat"
  sftp_close :: "world \<Rightarrow> unit outcome \<times> nat"
  read_in_maintenance_mode :: "world \<Rightarrow> nat \<Rightarrow> bool outcome \<times> nat"
  enter_maintenance_call :: "world \<Rightarrow> nat \<Rightarrow> int \<Rightarrow> unit outcome \<times> nat"
  exit_maintenance_call :: "world \<Rightarrow> nat \<Rightarrow> int \<Rightarrow> unit outcome \<times> nat"
  read_task_state :: "world \<Rightarrow> task_state outcome \<times> nat"
  reboot_call :: "world \<Rightarrow> nat \<Rightarrow> unit outcome \<times> nat"
  read_full_name :: "world \<Rightarrow> nat \<Rightarrow> string outcome \<times> nat"

text \<open>
  \<open>perform answer mk w\<close> issues one primitive: the answer \<open>r\<close> and its duration come from
  the environment, the event \<open>mk r\<close> is logged at the current clock value, and the clock
  advances by the duration.
\<close>

definition perform :: "(world \<Rightarrow> 'r \<times> nat) \<Rightarrow> ('r \<Rightarrow> event) \<Rightarrow> world \<Rightarrow> 'r \<times> world" where
  "perform answer mk w =
     (case answer w of (r, d) \<Rightarrow>
        (r, w\<lparr>clock := clock w + int d, trace := trace w @ [(clock w, mk r)]\<rparr>))"

text \<open>\<^verbatim>\<open>time.sleep(n)\<close>.\<close>

definition sleep :: "nat \<Rightarrow> world \<Rightarrow> world" where
  "sleep n w = snd (perform (\<lambda>_. ((), n)) (\<lambda>_. Sleep n) w)"

text \<open>A marker in the trace; it takes no time.\<close>

definition mark :: "event \<Rightarrow> world \<Rightarrow> world" where
  "mark e w = w\<lparr>trace := trace w @ [(clock w, e)]\<rparr>"

text \<open>The events a computation added to the trace of the world \<open>w\<close> it started from.\<close>

definition new_events :: "world \<Rightarrow> world \<Rightarrow> event list" where
  "new_events w w' = map snd (drop (length (trace w)) (trace w'))"

section \<open>Remote shell\<close>

text \<open>
  \<^verbatim>\<open>ssh_execute_with_output\<close> (lines 306-359): success is exit status 0, both outputs
  are stripped; any exception gives \<^verbatim>\<open>(False, "", "SSH execution error: ...")\<close>.
\<close>

definition ssh_execute_with_output ::
  "env \<Rightarrow> nat \<Rightarrow> string \<Rightarrow> nat \<Rightarrow> world \<Rightarrow> (bool \<times> string \<times> string) \<times> world" where
  "ssh_execute_with_output e client command tmo w =
     (case perform (\<lambda>w. ssh_run e w client command tmo) (SshCommand client command tmo) w of
        (Exited exit_code out err, w') \<Rightarrow> ((exit_code = 0, strip out, strip err), w')
      | (SshRaised msg, w') \<Rightarrow> ((False, [], ''SSH execution error: '' @ msg), w'))"

text \<open>\<^verbatim>\<open>ssh_execute\<close> (lines 361-369), default timeout 60.\<close>

definition ssh_execute :: "env \<Rightarrow> nat \<Rightarrow> string \<Rightarrow> world \<Rightarrow> (bool \<times> string) \<times> world" where
  "ssh_execute e client command w =
     (case ssh_execute_with_output e client command 60 w of
        ((success, stdout, stderr), w') \<Rightarrow>
          if success then ((True, stdout), w')
          else ((False, if stderr \<noteq> [] then stderr else ''Unknown SSH execution error''), w'))"

section \<open>Patch installation\<close>

text \<open>
  The command chosen from the file name in \<^verbatim>\<open>install_patch_via_ssh\<close> (lines 612-622);
  \<open>None\<close> is the branch that logs an unknown patch type.
\<close>

definition install_cmd :: "string \<Rightarrow> string \<Rightarrow> string option" where
  "install_cmd patch_path pname =
     (if endswith pname ''.zip''
        then Some (''esxcli software vib install -d '' @ [CHR 0x27] @ patch_path @ [CHR 0x27] @ '' --no-sig-check'')
      else if endswith pname ''.vib''
        then Some (''esxcli software vib install -v '' @ [CHR 0x27] @ patch_path @ [CHR 0x27] @ '' --no-sig-check'')
      else if endswith pname ''.iso''
        then Some (''esxcli software profile update -d '' @ [CHR 0x27] @ patch_path @ [CHR 0x27])
      else None)"

text \<open>\<^verbatim>\<open>install_patch_via_ssh\<close> (lines 603-651).\<close>

definition install_patch_via_ssh :: "env \<Rightarrow> patcher \<Rightarrow> nat \<Rightarrow> string \<Rightarrow> world \<Rightarrow> bool \<times> world" where
  "install_patch_via_ssh e p ssh_client datastore w =
     (if \<not> truthy_str (patch_name p) then (False, w)
      else
        let patch_path = datastore @ ''/'' @ fmt_opt (patch_name p) in
        case install_cmd patch_path (fmt_opt (patch_name p)) of
          None \<Rightarrow> (False, w)
        | Some cmd \<Rightarrow>
            (case ssh_execute_with_output e ssh_client cmd 1200 w of
               ((success, stdout, stderr), w') \<Rightarrow> (success, w')))"

section \<open>Upload\<close>

text \<open>
  \<^verbatim>\<open>copy_patch_via_scp\<close> (lines 395-433). Every exception inside the \<^verbatim>\<open>try\<close> ends in
  \<^verbatim>\<open>return False\<close>, also one raised by \<^verbatim>\<open>sftp.close()\<close> after the sizes matched.
\<close>

definition copy_patch_via_scp ::
  "env \<Rightarrow> patcher \<Rightarrow> nat \<Rightarrow> ESXiHost \<Rightarrow> string \<Rightarrow> world \<Rightarrow> bool \<times> world" where
  "copy_patch_via_scp e p ssh_client host datastore w =
     (case patch_file p of
        None \<Rightarrow> (False, w)
      | Some pf \<Rightarrow>
          if pf = [] then (False, w)
          else
            (case perform (\<lambda>w. path_exists e w pf) (PathExists pf) w of
               (False, w1) \<Rightarrow> (False, w1)
             | (True, w1) \<Rightarrow>
                 let remote_path = datastore @ ''/'' @ fmt_opt (patch_name p) in
                 (case perform (\<lambda>w. sftp_open e w ssh_client) (SftpOpen ssh_client) w1 of
                    (Raised _, w2) \<Rightarrow> (False, w2)
                  | (Ok _, w2) \<Rightarrow>
                      (case perform (\<lambda>w. sftp_stat e w datastore) (SftpStat datastore) w2 of
                         (Raised _, w3) \<Rightarrow> (False, snd (perform (sftp_close e) SftpClose w3))
                       | (Ok _, w3) \<Rightarrow>
                           (case perform (\<lambda>w. sftp_put e w pf remote_path) (SftpPut pf remote_path) w3 of
                              (Raised _, w4) \<Rightarrow> (False, w4)
                            | (Ok _, w4) \<Rightarrow>
                                (case perform (\<lambda>w. sftp_stat e w remote_path) (SftpStat remote_path) w4 of
                                   (Raised _, w5) \<Rightarrow> (False, w5)
                                 | (Ok st_size, w5) \<Rightarrow>
                                     (case perform (\<lambda>w. get_size e w pf) (GetSize pf) w5 of
                                        (Raised _, w6) \<Rightarrow> (False, w6)
                                      | (Ok local_size, w6) \<Rightarrow>
                                          if st_size = local_size
                                          then (case perform (sftp_close e) SftpClose w6 of
                                                  (Ok _, w7) \<Rightarrow> (True, w7)
                                                | (Raised _, w7) \<Rightarrow> (False, w7))
                                          else (False, snd (perform (sftp_close e) SftpClose w6)))))))))"

section \<open>Maintenance mode\<close>

text \<open>What \<^verbatim>\<open>_wait_for_task\<close> can raise.\<close>

datatype exn = TimeoutError int | TaskFailed | Propagated string

lemma clock_perform:
  "perform a mk w = (r, w') \<Longrightarrow> clock w \<le> clock w'"
  by (auto simp: perform_def split: prod.splits)

lemma clock_sleep: "clock (sleep n w) = clock w + int n"
  by (simp add: sleep_def perform_def)

text \<open>
  The loop of \<^verbatim>\<open>_wait_for_task\<close> (lines 725-729): each test of the loop condition reads
  \<^verbatim>\<open>task.info.state\<close> once.
\<close>

function wait_for_task_loop :: "env \<Rightarrow> int \<Rightarrow> int \<Rightarrow> world \<Rightarrow> exn option \<times> world" where
  "wait_for_task_loop e start_time tmo w =
     (case perform (read_task_state e) ReadTaskState w of
        (Raised m, w1) \<Rightarrow> (Some (Propagated m), w1)
      | (Ok s, w1) \<Rightarrow>
          if s = Success \<or> s = Error then (None, w1)
          else if clock w1 - start_time > tmo then (Some (TimeoutError tmo), w1)
          else wait_for_task_loop e start_time tmo (sleep 5 w1))"
  by pat_completeness auto
termination
proof (relation "measure (\<lambda>(e, start_time, tmo, w). nat (tmo - (clock w - start_time) + 1))",
    goal_cases)
  case 1
  show ?case by simp
next
  case (2 e start_time tmo w x1 w1 s)
  from 2(1) have "perform (read_task_state e) ReadTaskState w = (x1, w1)" by simp
  then have "clock w \<le> clock w1" by (rule clock_perform)
  with 2 show ?case by (simp add: clock_sleep)
qed

text \<open>\<^verbatim>\<open>_wait_for_task\<close> (lines 722-732); \<open>None\<close> is the normal return.\<close>

definition wait_for_task :: "env \<Rightarrow> int \<Rightarrow> world \<Rightarrow> exn option \<times> world" where
  "wait_for_task e tmo w =
     (case wait_for_task_loop e (clock w) tmo w of
        (Some x, w1) \<Rightarrow> (Some x, w1)
      | (None, w1) \<Rightarrow>
          (case perform (read_task_state e) ReadTaskState w1 of
             (Raised m, w2) \<Rightarrow> (Some (Propagated m), w2)
           | (Ok s, w2) \<Rightarrow> if s = Error then (Some TaskFailed, w2) else (None, w2)))"

text \<open>\<^verbatim>\<open>enter_maintenance_mode\<close> (lines 435-452).\<close>

definition enter_maintenance_mode :: "env \<Rightarrow> nat \<Rightarrow> int \<Rightarrow> world \<Rightarrow> bool \<times> world" where
  "enter_maintenance_mode e host_obj tmo w =
     (case perform (\<lambda>w. read_in_maintenance_mode e w host_obj) (ReadInMaintenanceMode host_obj) w of
        (Raised _, w1) \<Rightarrow> (False, w1)
      | (Ok True, w1) \<Rightarrow> (True, w1)
      | (Ok False, w1) \<Rightarrow>
          (case perform (\<lambda>w. enter_maintenance_call e w host_obj tmo)
                  (EnterMaintenanceModeCall host_obj tmo) w1 of
             (Raised _, w2) \<Rightarrow> (False, w2)
           | (Ok _, w2) \<Rightarrow>
               (case wait_for_task e 1800 w2 of
                  (Some _, w3) \<Rightarrow> (False, w3)
                | (None, w3) \<Rightarrow> (True, w3))))"

text \<open>\<^verbatim>\<open>exit_maintenance_mode\<close> (lines 825-842).\<close>

definition exit_maintenance_mode :: "env \<Rightarrow> nat \<Rightarrow> world \<Rightarrow> bool \<times> world" where
  "exit_maintenance_mode e host_obj w =
     (case perform (\<lambda>w. read_in_maintenance_mode e w host_obj) (ReadInMaintenanceMode host_obj) w of
        (Raised _, w1) \<Rightarrow> (False, w1)
      | (Ok False, w1) \<Rightarrow> (True, w1)
      | (Ok True, w1) \<Rightarrow>
          (case perform (\<lambda>w. exit_maintenance_call e w host_obj 0)
                  (ExitMaintenanceModeCall host_obj 0) w1 of
             (Raised _, w2) \<Rightarrow> (False, w2)
           | (Ok _, w2) \<Rightarrow>
               (case wait_for_task e 1800 w2 of
                  (Some _, w3) \<Rightarrow> (False, w3)
                | (None, w3) \<Rightarrow> (True, w3))))"

section \<open>Workload shutdown and startup\<close>

definition getallvms_cmd :: string where
  "getallvms_cmd = ''vim-cmd vmsvc/getallvms | tail -n +2 | awk '' @ [CHR 0x27] @ ''{print $1}'' @ [CHR 0x27]"

definition getstate_cmd :: "string \<Rightarrow> string" where
  "getstate_cmd vm_id = ''vim-cmd vmsvc/power.getstate '' @ vm_id"

definition shutdown_cmd :: "string \<Rightarrow> string" where
  "shutdown_cmd vm_id = ''vim-cmd vmsvc/power.shutdown '' @ vm_id"

definition poweroff_cmd :: "string \<Rightarrow> string" where
  "poweroff_cmd vm_id = ''vim-cmd vmsvc/power.off '' @ vm_id"

definition poweron_cmd :: "string \<Rightarrow> string" where
  "poweron_cmd vm_id = ''vim-cmd vmsvc/power.on '' @ vm_id"

text \<open>\<^verbatim>\<open>[vid.strip() for vid in output.splitlines() if vid.strip()]\<close>.\<close>

definition parse_vm_ids :: "string \<Rightarrow> string list" where
  "parse_vm_ids output = map strip (filter (\<lambda>vid. strip vid \<noteq> []) (splitlines output))"

lemma clock_ssh_execute:
  "ssh_execute e c cmd w = (r, w') \<Longrightarrow> clock w \<le> clock w'"
  by (auto simp: ssh_execute_def ssh_execute_with_output_def
      split: prod.splits ssh_outcome.splits if_splits dest: clock_perform)

text \<open>
  The polling loop of \<^verbatim>\<open>check_and_shutdown_vms\<close> (lines 508-517). The result is
  \<^verbatim>\<open>gracefully_stopped\<close>.
\<close>

function graceful_wait :: "env \<Rightarrow> nat \<Rightarrow> string \<Rightarrow> int \<Rightarrow> int \<Rightarrow> world \<Rightarrow> bool \<times> world" where
  "graceful_wait e c vm_id start graceful_timeout w =
     (if clock w - start < graceful_timeout then
        (case ssh_execute e c (getstate_cmd vm_id) (sleep 5 w) of
           ((ok, st), w1) \<Rightarrow>
             if ok \<and> py_in ''Powered off'' st then (True, w1)
             else graceful_wait e c vm_id start graceful_timeout w1)
      else (False, w))"
  by pat_completeness auto
termination
  apply (relation "measure (\<lambda>(e, c, vm_id, start, T, w). nat (T - (clock w - start)))")
  apply (auto simp: clock_sleep dest!: clock_ssh_execute[OF sym])
  done

text \<open>
  The body of the \<^verbatim>\<open>for vm_id in vm_ids\<close> loop (lines 483-539), threading
  \<^verbatim>\<open>failed_vms\<close> and the world.
\<close>

definition shutdown_vm ::
  "env \<Rightarrow> nat \<Rightarrow> int \<Rightarrow> string \<Rightarrow> string list \<times> world \<Rightarrow> string list \<times> world" where
  "shutdown_vm e c graceful_timeout vm_id acc =
     (case acc of (failed_vms, w) \<Rightarrow>
      (case ssh_execute e c (getstate_cmd vm_id) w of
         ((success, state_output), w1) \<Rightarrow>
           if \<not> success then
             (case ssh_execute e c (poweroff_cmd vm_id) w1 of
                ((success_force, _), w2) \<Rightarrow>
                  (if \<not> success_force then failed_vms @ [vm_id] else failed_vms, w2))
           else if \<not> py_in ''Powered on'' state_output then (failed_vms, w1)
           else
             (case ssh_execute e c (shutdown_cmd vm_id) w1 of
                (_, w2) \<Rightarrow>
                  (case graceful_wait e c vm_id (clock w2) graceful_timeout w2 of
                     (True, w3) \<Rightarrow> (failed_vms, w3)
                   | (False, w3) \<Rightarrow>
                       (case ssh_execute e c (poweroff_cmd vm_id) w3 of
                          ((ok_force, _), w4) \<Rightarrow>
                            if \<not> ok_force then (failed_vms @ [vm_id], w4)
                            else
                              (case ssh_execute e c (getstate_cmd vm_id) (sleep 5 w4) of
                                 ((ok, st), w5) \<Rightarrow>
                                   (if \<not> ok \<or> \<not> py_in ''Powered off'' st
                                    then failed_vms @ [vm_id] else failed_vms, w5)))))))"

text \<open>
  \<^verbatim>\<open>check_and_shutdown_vms\<close> (lines 454-555), default \<^verbatim>\<open>graceful_timeout\<close> 180. No call
  inside the \<^verbatim>\<open>try\<close> raises: \<^verbatim>\<open>ssh_execute\<close> catches every exception itself.
\<close>

definition check_and_shutdown_vms :: "env \<Rightarrow> nat \<Rightarrow> int \<Rightarrow> world \<Rightarrow> bool \<times> world" where
  "check_and_shutdown_vms e c graceful_timeout w =
     (case ssh_execute e c getallvms_cmd w of
        ((success, output), w1) \<Rightarrow>
          if \<not> success \<or> strip output = [] then (True, w1)
          else
            (case fold (shutdown_vm e c graceful_timeout) (parse_vm_ids output) ([], w1) of
               (failed_vms, w2) \<Rightarrow>
                 if failed_vms \<noteq> [] then (False, snd (ssh_execute e c getallvms_cmd w2))
                 else (True, w2)))"

text \<open>
  The body of the loop of \<^verbatim>\<open>start_vms_after_reboot\<close> (lines 575-591), threading
  \<^verbatim>\<open>started_vms\<close>, \<^verbatim>\<open>failed\<close> and the world.
\<close>

definition start_vm ::
  "env \<Rightarrow> nat \<Rightarrow> string \<Rightarrow> nat \<times> string list \<times> world \<Rightarrow> nat \<times> string list \<times> world" where
  "start_vm e c vm_id acc =
     (case acc of (started_vms, failed, w) \<Rightarrow>
      (case ssh_execute e c (getstate_cmd vm_id) w of
         ((success, state_output), w1) \<Rightarrow>
           if success \<and> py_in ''Powered off'' state_output then
             (case ssh_execute e c (poweron_cmd vm_id) w1 of
                ((success_start, _), w2) \<Rightarrow>
                  if success_start then (started_vms + 1, failed, w2)
                  else (started_vms, failed @ [vm_id], w2))
           else (started_vms, failed, w1)))"

text \<open>
  The state of \<^verbatim>\<open>start_vms_after_reboot\<close> when its loop ends: \<open>None\<close> when the listing
  failed or was empty (the early return), else \<^verbatim>\<open>vm_ids\<close>, \<^verbatim>\<open>started_vms\<close> and \<^verbatim>\<open>failed\<close>.
\<close>

definition start_vms_loop ::
  "env \<Rightarrow> nat \<Rightarrow> world \<Rightarrow> (string list \<times> nat \<times> string list) option \<times> world" where
  "start_vms_loop e c w =
     (case ssh_execute e c getallvms_cmd w of
        ((success, output), w1) \<Rightarrow>
          if \<not> success \<or> strip output = [] then (None, w1)
          else
            (case fold (start_vm e c) (parse_vm_ids output) (0, [], w1) of
               (started_vms, failed, w2) \<Rightarrow>
                 (Some (parse_vm_ids output, started_vms, failed), w2)))"

text \<open>
  \<^verbatim>\<open>start_vms_after_reboot\<close> (lines 557-601): \<^verbatim>\<open>started_vms\<close> is logged, the value
  returned is \<^verbatim>\<open>True\<close> on both paths.
\<close>

definition start_vms_after_reboot :: "env \<Rightarrow> nat \<Rightarrow> world \<Rightarrow> bool \<times> world" where
  "start_vms_after_reboot e c w =
     (case start_vms_loop e c w of
        (None, w1) \<Rightarrow> (True, w1)
      | (Some _, w1) \<Rightarrow> (True, w1))"

section \<open>Waiting for the network\<close>

definition probe :: "env \<Rightarrow> string \<Rightarrow> int \<Rightarrow> world \<Rightarrow> int outcome \<times> world" where
  "probe e addr port w = perform (\<lambda>w. tcp_probe e w addr port) (TcpProbe addr port) w"

lemma clock_probe: "probe e addr port w = (r, w') \<Longrightarrow> clock w \<le> clock w'"
  unfolding probe_def by (rule clock_perform)

text \<open>\<^verbatim>\<open>wait_for_ssh\<close> (lines 260-282): the loop, from \<^verbatim>\<open>start_time\<close>.\<close>

function wait_for_ssh_loop :: "env \<Rightarrow> ESXiHost \<Rightarrow> int \<Rightarrow> int \<Rightarrow> world \<Rightarrow> bool \<times> world" where
  "wait_for_ssh_loop e host start_time tmo w =
     (if clock w - start_time < tmo then
        (case probe e (ip host) (ssh_port host) w of
           (Ok result, w1) \<Rightarrow>
             if result = 0 then (True, w1)
             else wait_for_ssh_loop e host start_time tmo (sleep 5 w1)
         | (Raised _, w1) \<Rightarrow> wait_for_ssh_loop e host start_time tmo (sleep 5 w1))
      else (False, w))"
  by pat_completeness auto
termination
  apply (relation "measure (\<lambda>(e, host, start, T, w). nat (T - (clock w - start)))")
  apply (auto simp: clock_sleep dest!: clock_probe[OF sym])
  done

definition wait_for_ssh :: "env \<Rightarrow> ESXiHost \<Rightarrow> int \<Rightarrow> world \<Rightarrow> bool \<times> world" where
  "wait_for_ssh e host tmo w = wait_for_ssh_loop e host (clock w) tmo w"

text \<open>
  Step 1 of \<^verbatim>\<open>wait_for_host_reboot\<close> (lines 745-766): \<^verbatim>\<open>for i in range(60)\<close>, the argument
  counting the iterations left; the result is \<^verbatim>\<open>host_went_down\<close>. The port is the literal 22.
\<close>

fun down_detection :: "env \<Rightarrow> ESXiHost \<Rightarrow> nat \<Rightarrow> world \<Rightarrow> bool \<times> world" where
  "down_detection e host 0 w = (False, w)"
| "down_detection e host (Suc n) w =
     (case probe e (ip host) 22 w of
        (Ok result, w1) \<Rightarrow>
          if result \<noteq> 0 then (True, w1)
          else down_detection e host n (sleep 5 w1)
      | (Raised _, w1) \<Rightarrow> down_detection e host n (sleep 5 w1))"

text \<open>
  Step 2 of \<^verbatim>\<open>wait_for_host_reboot\<close> (lines 776-823), \<^verbatim>\<open>max_wait = 600\<close>. The ports are the
  literals 22 and 443.
\<close>

function up_detection :: "env \<Rightarrow> ESXiHost \<Rightarrow> int \<Rightarrow> world \<Rightarrow> bool \<times> world" where
  "up_detection e host wait_start w =
     (if clock w - wait_start < 600 then
        (case probe e (ip host) 22 w of
           (Ok result, w1) \<Rightarrow>
             if result = 0 then
               (case probe e (ip host) 443 (sleep 15 w1) of
                  (Ok result_api, w2) \<Rightarrow>
                    if result_api = 0 then (True, sleep 25 w2)
                    else up_detection e host wait_start (sleep 5 w2)
                | (Raised _, w2) \<Rightarrow> up_detection e host wait_start (sleep 5 w2))
             else up_detection e host wait_start (sleep 5 w1)
         | (Raised _, w1) \<Rightarrow> up_detection e host wait_start (sleep 5 w1))
      else (False, w))"
  by pat_completeness auto
termination
  apply (relation "measure (\<lambda>(e, host, start, w). nat (600 - (clock w - start)))")
  apply (auto simp: clock_sleep dest!: clock_probe[OF sym])
  done

text \<open>
  \<^verbatim>\<open>wait_for_host_reboot\<close> (lines 734-823). The parameter \<^verbatim>\<open>timeout\<close> is not read by the
  body; \<^verbatim>\<open>host_went_down\<close> only selects a warning.
\<close>

definition wait_for_host_reboot :: "env \<Rightarrow> ESXiHost \<Rightarrow> int \<Rightarrow> world \<Rightarrow> bool \<times> world" where
  "wait_for_host_reboot e host tmo w =
     (case down_detection e host 60 w of
        (host_went_down, w1) \<Rightarrow> up_detection e host (clock w1) w1)"

section \<open>The other steps of a host run\<close>

text \<open>\<^verbatim>\<open>_connect_api\<close> (lines 112-130).\<close>

definition connect_api :: "env \<Rightarrow> ESXiHost \<Rightarrow> world \<Rightarrow> nat option \<times> world" where
  "connect_api e host w =
     (case perform (\<lambda>w. smart_connect e w (ip host) (api_port host))
             (SmartConnect (ip host) (api_port host)) w of
        (Ok si, w1) \<Rightarrow> (Some si, w1)
      | (Raised _, w1) \<Rightarrow> (None, w1))"

text \<open>\<^verbatim>\<open>_get_host_system\<close> (lines 132-144): the first host of the container view.\<close>

definition get_host_system :: "env \<Rightarrow> nat \<Rightarrow> world \<Rightarrow> nat option \<times> world" where
  "get_host_system e si w =
     (case perform (\<lambda>w. host_system_view e w si) (HostSystemView si) w of
        (Ok view, w1) \<Rightarrow> (case view of [] \<Rightarrow> (None, w1) | h # _ \<Rightarrow> (Some h, w1))
      | (Raised _, w1) \<Rightarrow> (None, w1))"

text \<open>\<^verbatim>\<open>is_host_in_cluster\<close> (lines 146-160).\<close>

definition is_host_in_cluster :: "env \<Rightarrow> nat \<Rightarrow> world \<Rightarrow> bool \<times> world" where
  "is_host_in_cluster e host_obj w =
     (case perform (\<lambda>w. read_parent e w host_obj) (ReadParent host_obj) w of
        (Ok ClusterComputeResource, w1) \<Rightarrow> (True, w1)
      | (Ok _, w1) \<Rightarrow> (False, w1)
      | (Raised _, w1) \<Rightarrow> (False, w1))"

text \<open>
  \<^verbatim>\<open>enable_services_via_api\<close> and \<^verbatim>\<open>disable_services_via_api\<close> (lines 162-258) catch every
  exception and return a Boolean that \<^verbatim>\<open>process_host\<close> only logs; each is one primitive
  here, its result supplied by the environment.
\<close>

definition enable_services_via_api :: "env \<Rightarrow> nat \<Rightarrow> world \<Rightarrow> bool \<times> world" where
  "enable_services_via_api e host_obj w =
     perform (\<lambda>w. enable_services e w host_obj) (EnableServices host_obj) w"

definition disable_services_via_api :: "env \<Rightarrow> nat \<Rightarrow> world \<Rightarrow> bool \<times> world" where
  "disable_services_via_api e host_obj w =
     perform (\<lambda>w. disable_services e w host_obj) (DisableServices host_obj) w"

text \<open>\<^verbatim>\<open>ssh_connect\<close> (lines 284-304).\<close>

definition ssh_connect :: "env \<Rightarrow> ESXiHost \<Rightarrow> world \<Rightarrow> nat option \<times> world" where
  "ssh_connect e host w =
     (case perform (\<lambda>w. ssh_connect_to e w (ip host) (ssh_port host))
             (SshConnect (ip host) (ssh_port host)) w of
        (Ok client, w1) \<Rightarrow> (Some client, w1)
      | (Raised _, w1) \<Rightarrow> (None, w1))"

definition filesystem_list_cmd :: string where
  "filesystem_list_cmd =
     ''esxcli storage filesystem list | grep -E '' @ [CHR 0x27] @ ''^/vmfs/volumes/[^ ]+'' @ [CHR 0x27]
       @ '' | head -1 | awk '' @ [CHR 0x27] @ ''{print $1}'' @ [CHR 0x27]"

definition volumes_ls_cmd :: string where
  "volumes_ls_cmd = ''ls -d /vmfs/volumes/*/ 2>/dev/null | head -1''"

text \<open>\<^verbatim>\<open>find_boot_datastore\<close> (lines 371-393).\<close>

definition find_boot_datastore :: "env \<Rightarrow> nat \<Rightarrow> world \<Rightarrow> string option \<times> world" where
  "find_boot_datastore e c w =
     (case ssh_execute e c filesystem_list_cmd w of
        ((success, output), w1) \<Rightarrow>
          if success \<and> output \<noteq> [] \<and> startswith output ''/vmfs/volumes/'' then (Some (strip output), w1)
          else
            (case ssh_execute e c volumes_ls_cmd w1 of
               ((success2, output2), w2) \<Rightarrow>
                 if success2 \<and> output2 \<noteq> [] then (Some (rstrip_slash (strip output2)), w2)
                 else (None, w2)))"

text \<open>\<^verbatim>\<open>self.patch_file and os.path.exists(self.patch_file)\<close> (lines 929, 965, 982).\<close>

definition patch_present :: "env \<Rightarrow> patcher \<Rightarrow> world \<Rightarrow> bool \<times> world" where
  "patch_present e p w =
     (case patch_file p of
        None \<Rightarrow> (False, w)
      | Some pf \<Rightarrow> if pf = [] then (False, w) else perform (\<lambda>w. path_exists e w pf) (PathExists pf) w)"

text \<open>\<^verbatim>\<open>re.search(r'\d{8}', s)\<close>: the first run of eight decimal digits.\<close>

definition is_digit :: "char \<Rightarrow> bool" where
  "is_digit c = (c \<in> set ''0123456789'')"

fun search_8_digits :: "string \<Rightarrow> string option" where
  "search_8_digits [] = None"
| "search_8_digits (c # cs) =
     (if 8 \<le> length (c # cs) \<and> list_all is_digit (take 8 (c # cs)) then Some (take 8 (c # cs))
      else search_8_digits cs)"

text \<open>\<^verbatim>\<open>verify_patch_installation\<close> (lines 653-687), called without a pattern.\<close>

definition verify_patch_installation :: "env \<Rightarrow> patcher \<Rightarrow> nat \<Rightarrow> world \<Rightarrow> bool \<times> world" where
  "verify_patch_installation e p c w =
     (let patch_pattern =
            (if truthy_str (patch_name p) then search_8_digits (fmt_opt (patch_name p)) else None)
      in case patch_pattern of
           None \<Rightarrow> (case ssh_execute e c ''uname -a'' w of ((success, _), w1) \<Rightarrow> (success, w1))
         | Some pat \<Rightarrow>
             (case ssh_execute e c (''esxcli software vib list | grep -i '' @ pat) w of
                ((success, output), w1) \<Rightarrow>
                  if success \<and> output \<noteq> [] then (True, w1)
                  else
                    (case ssh_execute e c ''esxcli software vib list | tail -20'' w1 of
                       (_, w2) \<Rightarrow>
                         (case ssh_execute e c ''vmware -v'' w2 of
                            (_, w3) \<Rightarrow> (False, w3)))))"

text \<open>\<^verbatim>\<open>cleanup_patch_file\<close> (lines 689-702).\<close>

definition cleanup_patch_file :: "env \<Rightarrow> patcher \<Rightarrow> nat \<Rightarrow> string \<Rightarrow> world \<Rightarrow> bool \<times> world" where
  "cleanup_patch_file e p c datastore w =
     (case ssh_execute e c
             (''rm -f '' @ [CHR 0x27] @ datastore @ ''/'' @ fmt_opt (patch_name p) @ [CHR 0x27]) w of
        ((success, _), w1) \<Rightarrow> (success, w1))"

text \<open>\<^verbatim>\<open>reboot_host\<close> (lines 704-720).\<close>

definition reboot_host :: "env \<Rightarrow> nat \<Rightarrow> world \<Rightarrow> bool \<times> world" where
  "reboot_host e host_obj w =
     (case perform (\<lambda>w. reboot_call e w host_obj) (RebootCall host_obj) w of
        (Ok _, w1) \<Rightarrow> (True, sleep 10 w1)
      | (Raised _, w1) \<Rightarrow> (False, w1))"

section \<open>The per-host workflow\<close>

text \<open>
  The second component of what \<^verbatim>\<open>process_host\<close> returns. Each constructor stands for the
  string literal returned at the line given; \<open>Msg_exception\<close> is the text built in the
  \<^verbatim>\<open>except\<close> clause from the exception's message.
\<close>

datatype message =
    Msg_api_connect_error  \<comment> \<open>line 891\<close>
  | Msg_host_object_error  \<comment> \<open>line 895\<close>
  | Msg_ssh_connect_error  \<comment> \<open>line 919\<close>
  | Msg_no_datastore  \<comment> \<open>line 926\<close>
  | Msg_copy_failed  \<comment> \<open>line 933\<close>
  | Msg_maintenance_failed  \<comment> \<open>lines 943 and 962\<close>
  | Msg_install_failed  \<comment> \<open>line 969\<close>
  | Msg_reboot_error  \<comment> \<open>line 991\<close>
  | Msg_reboot_wait_failed  \<comment> \<open>line 1003\<close>
  | Msg_reconnect_failed  \<comment> \<open>line 1030\<close>
  | Msg_host_object_after_reboot_error  \<comment> \<open>line 1034\<close>
  | Msg_success  \<comment> \<open>line 1074\<close>
  | Msg_exception string  \<comment> \<open>line 1079\<close>

text \<open>The two local variables the \<^verbatim>\<open>finally\<close> clause reads.\<close>

record locals =
  cur_api_connection :: "nat option"
  cur_ssh_client :: "nat option"

text \<open>
  \<open>call m truth f\<close> runs the method \<open>f\<close> and brackets its events with \<open>Invoke m\<close> and
  \<open>Return m b\<close>, where \<open>b\<close> is the truth value the caller tests.
\<close>

definition call :: "callee \<Rightarrow> ('r \<Rightarrow> bool) \<Rightarrow> (world \<Rightarrow> 'r \<times> world) \<Rightarrow> world \<Rightarrow> 'r \<times> world" where
  "call m truth f w =
     (case f (mark (Invoke m) w) of (r, w') \<Rightarrow> (r, mark (Return m (truth r)) w'))"

definition is_some :: "'a option \<Rightarrow> bool" where
  "is_some x = (x \<noteq> None)"

text \<open>Lines 886-936: steps 1 to 6.\<close>

definition process_host_steps_1_6 ::
  "env \<Rightarrow> patcher \<Rightarrow> ESXiHost \<Rightarrow> world \<Rightarrow>
     (message + (nat \<times> nat \<times> bool \<times> nat \<times> string)) \<times> locals \<times> world" where
  "process_host_steps_1_6 e p host w =
     (case call M_connect_api is_some (connect_api e host) w of
        (None, w1) \<Rightarrow>
          (Inl Msg_api_connect_error, \<lparr>cur_api_connection = None, cur_ssh_client = None\<rparr>, w1)
      | (Some si, w1) \<Rightarrow>
          (case call M_get_host_system is_some (get_host_system e si) w1 of
             (None, w2) \<Rightarrow>
               (Inl Msg_host_object_error, \<lparr>cur_api_connection = Some si, cur_ssh_client = None\<rparr>, w2)
           | (Some h, w2) \<Rightarrow>
               (case call M_is_host_in_cluster id (is_host_in_cluster e h) w2 of
                  (clustered, w3) \<Rightarrow>
               (case call M_enable_services_via_api id (enable_services_via_api e h) w3 of
                  (_, w4) \<Rightarrow>
               (case call M_wait_for_ssh id (wait_for_ssh e host 120) w4 of
                  (_, w5) \<Rightarrow>
               (case call M_ssh_connect is_some (ssh_connect e host) w5 of
                  (None, w6) \<Rightarrow>
                    (Inl Msg_ssh_connect_error,
                     \<lparr>cur_api_connection = Some si, cur_ssh_client = None\<rparr>, w6)
                | (Some c, w6) \<Rightarrow>
                    (let l = \<lparr>cur_api_connection = Some si, cur_ssh_client = Some c\<rparr> in
                     case call M_find_boot_datastore truthy_str (find_boot_datastore e c) w6 of
                       (None, w7) \<Rightarrow> (Inl Msg_no_datastore, l, w7)
                     | (Some ds, w7) \<Rightarrow>
                         if ds = [] then (Inl Msg_no_datastore, l, w7)
                         else
                           (case patch_present e p w7 of
                              (False, w8) \<Rightarrow> (Inr (si, h, clustered, c, ds), l, w8)
                            | (True, w8) \<Rightarrow>
                                (case call M_copy_patch_via_scp id
                                        (copy_patch_via_scp e p c host ds) w8 of
                                   (False, w9) \<Rightarrow> (Inl Msg_copy_failed, l, w9)
                                 | (True, w9) \<Rightarrow> (Inr (si, h, clustered, c, ds), l, w9))))))))))"

text \<open>
  Lines 938-962: the branch on the topology. \<^verbatim>\<open>enter_maintenance_mode\<close> is called with its
  default timeout 0, \<^verbatim>\<open>check_and_shutdown_vms\<close> with its default 180; \<^verbatim>\<open>vm_result\<close> is only
  logged. \<open>Some m\<close> is the early \<^verbatim>\<open>return False, m\<close>.
\<close>

definition process_host_steps_7_8 ::
  "env \<Rightarrow> nat \<Rightarrow> bool \<Rightarrow> nat \<Rightarrow> world \<Rightarrow> message option \<times> world" where
  "process_host_steps_7_8 e h clustered c w =
     (if clustered then
        (case call M_enter_maintenance_mode id (enter_maintenance_mode e h 0) w of
           (False, w1) \<Rightarrow> (Some Msg_maintenance_failed, w1)
         | (True, w1) \<Rightarrow>
             (case call M_check_and_shutdown_vms id (check_and_shutdown_vms e c 180) w1 of
                (vm_result, w2) \<Rightarrow> (None, w2)))
      else
        (case call M_check_and_shutdown_vms id (check_and_shutdown_vms e c 180) w of
           (vm_result, w1) \<Rightarrow>
             (case call M_enter_maintenance_mode id (enter_maintenance_mode e h 0) w1 of
                (False, w2) \<Rightarrow> (Some Msg_maintenance_failed, w2)
              | (True, w2) \<Rightarrow> (None, w2))))"

text \<open>Lines 964-985: install, verify, clean up.\<close>

definition process_host_steps_9_11 ::
  "env \<Rightarrow> patcher \<Rightarrow> nat \<Rightarrow> string \<Rightarrow> world \<Rightarrow> message option \<times> world" where
  "process_host_steps_9_11 e p c ds w =
     (case patch_present e p w of
        (present, w1) \<Rightarrow>
          (case (if present then call M_install_patch_via_ssh id (install_patch_via_ssh e p c ds) w1
                 else (True, w1)) of
             (False, w2) \<Rightarrow> (Some Msg_install_failed, w2)
           | (True, w2) \<Rightarrow>
               (case call M_verify_patch_installation id (verify_patch_installation e p c) w2 of
                  (_, w3) \<Rightarrow>
                    (case patch_present e p w3 of
                       (False, w4) \<Rightarrow> (None, w4)
                     | (True, w4) \<Rightarrow>
                         (None, snd (call M_cleanup_patch_file id (cleanup_patch_file e p c ds) w4))))))"

text \<open>
  Lines 987-1003: reboot, close both sessions, wait. The two closing calls are not guarded:
  an exception there reaches the \<^verbatim>\<open>except\<close> clause of \<^verbatim>\<open>process_host\<close>.
\<close>

definition process_host_steps_12_13 ::
  "env \<Rightarrow> ESXiHost \<Rightarrow> nat \<Rightarrow> nat \<Rightarrow> nat \<Rightarrow> world \<Rightarrow> message option \<times> world" where
  "process_host_steps_12_13 e host h si c w =
     (case call M_reboot_host id (reboot_host e h) w of
        (False, w1) \<Rightarrow> (Some Msg_reboot_error, w1)
      | (True, w1) \<Rightarrow>
          (case perform (\<lambda>w. ssh_close e w c) (SshClose c) w1 of
             (Raised m, w2) \<Rightarrow> (Some (Msg_exception m), w2)
           | (Ok _, w2) \<Rightarrow>
               (case perform (\<lambda>w. disconnect e w si) (Disconnect si) w2 of
                  (Raised m, w3) \<Rightarrow> (Some (Msg_exception m), w3)
                | (Ok _, w3) \<Rightarrow>
                    (case call M_wait_for_host_reboot id (wait_for_host_reboot e host 600) w3 of
                       (False, w4) \<Rightarrow> (Some Msg_reboot_wait_failed, w4)
                     | (True, w4) \<Rightarrow> (None, w4)))))"

text \<open>
  Lines 1014-1027: \<^verbatim>\<open>for attempt in range(max_retries)\<close>, the argument counting the attempts
  left; the pause is skipped after the last attempt.
\<close>

fun reconnect_api :: "env \<Rightarrow> ESXiHost \<Rightarrow> nat \<Rightarrow> world \<Rightarrow> nat option \<times> world" where
  "reconnect_api e host 0 w = (None, w)"
| "reconnect_api e host (Suc n) w =
     (case call M_connect_api is_some (connect_api e host) w of
        (Some si, w1) \<Rightarrow> (Some si, w1)
      | (None, w1) \<Rightarrow> reconnect_api e host n (if 0 < n then sleep 30 w1 else w1))"

text \<open>
  Lines 1005-1074: after the reboot. \<open>c_old\<close> is the shell client closed before the reboot,
  still held by \<^verbatim>\<open>ssh_client\<close> until line 1039 replaces it.
\<close>

definition process_host_steps_14_18 ::
  "env \<Rightarrow> ESXiHost \<Rightarrow> bool \<Rightarrow> nat \<Rightarrow> world \<Rightarrow> (bool \<times> message) \<times> locals \<times> world" where
  "process_host_steps_14_18 e host clustered c_old w =
     (case reconnect_api e host 5 (sleep 30 w) of
        (None, w1) \<Rightarrow>
          ((False, Msg_reconnect_failed),
           \<lparr>cur_api_connection = None, cur_ssh_client = Some c_old\<rparr>, w1)
      | (Some si2, w1) \<Rightarrow>
          (case call M_get_host_system is_some (get_host_system e si2) w1 of
             (None, w2) \<Rightarrow>
               ((False, Msg_host_object_after_reboot_error),
                \<lparr>cur_api_connection = Some si2, cur_ssh_client = Some c_old\<rparr>, w2)
           | (Some h2, w2) \<Rightarrow>
               (case call M_ssh_connect is_some (ssh_connect e host) w2 of
                  (c2, w3) \<Rightarrow>
               (case call M_exit_maintenance_mode id (exit_maintenance_mode e h2) w3 of
                  (_, w4) \<Rightarrow>
               (case call M_disable_services_via_api id (disable_services_via_api e h2)
                       (case c2 of
                          None \<Rightarrow> w4
                        | Some c \<Rightarrow>
                            if \<not> clustered
                            then snd (call M_start_vms_after_reboot id (start_vms_after_reboot e c) w4)
                            else w4) of
                  (_, w6) \<Rightarrow>
                    ((True, Msg_success),
                     \<lparr>cur_api_connection = Some si2, cur_ssh_client = c2\<rparr>, w6))))))"

text \<open>
  Lines 964-1074: what the \<^verbatim>\<open>try\<close> block does once the topology branch has not returned.
\<close>

definition process_host_steps_9_18 ::
  "env \<Rightarrow> patcher \<Rightarrow> ESXiHost \<Rightarrow> nat \<times> nat \<times> bool \<times> nat \<times> string \<Rightarrow> locals \<Rightarrow> world \<Rightarrow>
     (bool \<times> message) \<times> locals \<times> world" where
  "process_host_steps_9_18 e p host ctx l w2 =
     (case ctx of
        (si, h, clustered, c, ds) \<Rightarrow>
          (case process_host_steps_9_11 e p c ds w2 of
             (Some m, w3) \<Rightarrow> ((False, m), l, w3)
           | (None, w3) \<Rightarrow>
               (case process_host_steps_12_13 e host h si c w3 of
                  (Some m, w4) \<Rightarrow> ((False, m), l, w4)
                | (None, w4) \<Rightarrow> process_host_steps_14_18 e host clustered c w4)))"

text \<open>The \<^verbatim>\<open>try\<close> block of \<^verbatim>\<open>process_host\<close> with its \<^verbatim>\<open>except\<close> clause (lines 885-1079).\<close>

definition process_host_try ::
  "env \<Rightarrow> patcher \<Rightarrow> ESXiHost \<Rightarrow> world \<Rightarrow> (bool \<times> message) \<times> locals \<times> world" where
  "process_host_try e p host w =
     (case process_host_steps_1_6 e p host w of
        (Inl m, l, w1) \<Rightarrow> ((False, m), l, w1)
      | (Inr (si, h, clustered, c, ds), l, w1) \<Rightarrow>
          (case process_host_steps_7_8 e h clustered c w1 of
             (Some m, w2) \<Rightarrow> ((False, m), l, w2)
           | (None, w2) \<Rightarrow> process_host_steps_9_18 e p host (si, h, clustered, c, ds) l w2))"

text \<open>The \<^verbatim>\<open>finally\<close> clause (lines 1081-1093): exceptions of the closing calls are dropped.\<close>

definition finally_close :: "env \<Rightarrow> locals \<Rightarrow> world \<Rightarrow> world" where
  "finally_close e l w =
     (let w1 = (case cur_ssh_client l of
                  None \<Rightarrow> w
                | Some c \<Rightarrow> snd (perform (\<lambda>w. ssh_close e w c) (SshClose c) w))
      in case cur_api_connection l of
           None \<Rightarrow> w1
         | Some si \<Rightarrow> snd (perform (\<lambda>w. disconnect e w si) (Disconnect si) w1))"

text \<open>\<^verbatim>\<open>process_host\<close> (lines 872-1093).\<close>

definition process_host :: "env \<Rightarrow> patcher \<Rightarrow> ESXiHost \<Rightarrow> world \<Rightarrow> (bool \<times> message) \<times> world" where
  "process_host e p host w =
     (case process_host_try e p host w of (res, l, w1) \<Rightarrow> (res, finally_close e l w1))"

section \<open>The fleet run\<close>

text \<open>
  \<^verbatim>\<open>test_connection\<close> (lines 844-870); the result is the first component of the tuple,
  \<^verbatim>\<open>False\<close> when a call outside the guarded helpers raised.
\<close>

definition test_api :: "env \<Rightarrow> ESXiHost \<Rightarrow> world \<Rightarrow> bool \<times> world" where
  "test_api e host w =
     (case connect_api e host w of
        (None, w1) \<Rightarrow> (True, w1)
      | (Some si, w1) \<Rightarrow>
          (case get_host_system e si w1 of
             (None, w2) \<Rightarrow>
               (case perform (\<lambda>w. disconnect e w si) (Disconnect si) w2 of
                  (Raised _, w3) \<Rightarrow> (False, w3)
                | (Ok _, w3) \<Rightarrow> (True, w3))
           | (Some h, w2) \<Rightarrow>
               (case perform (\<lambda>w. read_full_name e w h) (ReadFullName h) w2 of
                  (Raised _, w3) \<Rightarrow> (False, w3)
                | (Ok _, w3) \<Rightarrow>
                    (case perform (\<lambda>w. disconnect e w si) (Disconnect si) w3 of
                       (Raised _, w4) \<Rightarrow> (False, w4)
                     | (Ok _, w4) \<Rightarrow> (True, w4)))))"

definition test_connection :: "env \<Rightarrow> ESXiHost \<Rightarrow> world \<Rightarrow> bool \<times> world" where
  "test_connection e host w =
     (case ssh_connect e host w of
        (None, w1) \<Rightarrow> test_api e host w1
      | (Some c, w1) \<Rightarrow>
          (case ssh_execute e c ''vmware -v'' w1 of
             (_, w2) \<Rightarrow>
               (case perform (\<lambda>w. ssh_close e w c) (SshClose c) w2 of
                  (Raised _, w3) \<Rightarrow> (False, w3)
                | (Ok _, w3) \<Rightarrow> test_api e host w3)))"

text \<open>
  \<^verbatim>\<open>results[host.name] = (success, message)\<close> on a Python dict, kept as an association list
  in insertion order: an existing key keeps its place and gets the new value.
\<close>

fun dict_set :: "('k \<times> 'v) list \<Rightarrow> 'k \<Rightarrow> 'v \<Rightarrow> ('k \<times> 'v) list" where
  "dict_set [] k v = [(k, v)]"
| "dict_set ((k', v') # kvs) k v = (if k' = k then (k, v) # kvs else (k', v') # dict_set kvs k v)"

text \<open>
  The loop of \<^verbatim>\<open>run\<close> (lines 1126-1137): \<^verbatim>\<open>for i, host in enumerate(self.hosts, 1)\<close>, with
  \<open>n_hosts\<close> for \<^verbatim>\<open>len(self.hosts)\<close>.
\<close>

fun run_loop ::
  "env \<Rightarrow> patcher \<Rightarrow> nat \<Rightarrow> nat \<Rightarrow> ESXiHost list \<Rightarrow>
     (string \<times> bool \<times> message) list \<times> world \<Rightarrow> (string \<times> bool \<times> message) list \<times> world" where
  "run_loop e p n_hosts i [] acc = acc"
| "run_loop e p n_hosts i (host # rest) acc =
     (case acc of (results, w) \<Rightarrow>
        (case process_host e p host w of
           ((success, msg), w1) \<Rightarrow>
             run_loop e p n_hosts (i + 1) rest
               (dict_set results (name host) (success, msg),
                if i < n_hosts then sleep 30 w1 else w1)))"

text \<open>The dict \<^verbatim>\<open>results\<close> when the loop of \<^verbatim>\<open>run\<close> has ended (lines 1111-1137).\<close>

definition run_results :: "env \<Rightarrow> patcher \<Rightarrow> world \<Rightarrow> (string \<times> bool \<times> message) list \<times> world" where
  "run_results e p w =
     run_loop e p (length (hosts p)) 1 (hosts p)
       ([], if 0 < length (hosts p) then fold (\<lambda>host w. snd (test_connection e host w)) (hosts p) w
            else w)"

definition fail_count :: "(string \<times> bool \<times> message) list \<Rightarrow> nat" where
  "fail_count results = length (filter (\<lambda>(host_name, success, msg). \<not> success) results)"

text \<open>\<^verbatim>\<open>run\<close> (lines 1095-1162).\<close>

definition run :: "env \<Rightarrow> patcher \<Rightarrow> world \<Rightarrow> bool \<times> world" where
  "run e p w = (case run_results e p w of (results, w1) \<Rightarrow> (fail_count results = 0, w1))"

section \<open>Vocabulary of the properties\<close>

text \<open>Exit status 0: the first component of what \<^verbatim>\<open>ssh_execute_with_output\<close> returns.\<close>

definition ssh_ok :: "ssh_outcome \<Rightarrow> bool" where
  "ssh_ok a = (case a of Exited exit_code out err \<Rightarrow> exit_code = 0 | SshRaised m \<Rightarrow> False)"

text \<open>What \<^verbatim>\<open>ssh_execute\<close> returns when the command ended with the outcome \<open>a\<close>.\<close>

definition ssh_result :: "ssh_outcome \<Rightarrow> bool \<times> string" where
  "ssh_result a =
     (case a of
        Exited exit_code out err \<Rightarrow>
          if exit_code = 0 then (True, strip out)
          else (False, if strip err \<noteq> [] then strip err else ''Unknown SSH execution error'')
      | SshRaised m \<Rightarrow> (False, ''SSH execution error: '' @ m))"

text \<open>A state query answered with success and a text containing \<^verbatim>\<open>Powered off\<close>.\<close>

definition reports_off :: "ssh_outcome \<Rightarrow> bool" where
  "reports_off a = (fst (ssh_result a) \<and> py_in ''Powered off'' (snd (ssh_result a)))"

text \<open>Events of the shell client \<open>c\<close> about the workload \<open>vm\<close>.\<close>

definition is_poll :: "nat \<Rightarrow> string \<Rightarrow> event \<Rightarrow> bool" where
  "is_poll c vm ev =
     (case ev of SshCommand c' cmd tmo a \<Rightarrow> c' = c \<and> cmd = getstate_cmd vm | _ \<Rightarrow> False)"

definition poll_off :: "nat \<Rightarrow> string \<Rightarrow> event \<Rightarrow> bool" where
  "poll_off c vm ev =
     (case ev of SshCommand c' cmd tmo a \<Rightarrow> c' = c \<and> cmd = getstate_cmd vm \<and> reports_off a
      | _ \<Rightarrow> False)"

definition is_poweroff :: "nat \<Rightarrow> string \<Rightarrow> event \<Rightarrow> bool" where
  "is_poweroff c vm ev =
     (case ev of SshCommand c' cmd tmo a \<Rightarrow> c' = c \<and> cmd = poweroff_cmd vm | _ \<Rightarrow> False)"

section \<open>Concrete environments\<close>

definition world0 :: world where
  "world0 = \<lparr>clock = 0, trace = []\<rparr>"

definition host1 :: ESXiHost where
  "host1 = \<lparr>name = ''esx1'', ip = ''10.0.0.1'', username = ''root'', password = ''pw'',
            ssh_port = 22, api_port = 443\<rparr>"

definition patcher1 :: patcher where
  "patcher1 = \<lparr>hosts = [host1], patch_file = Some ''/tmp/p.zip'', patch_name = Some ''p.zip'',
               timeout = 300\<rparr>"

text \<open>
  A host that is in maintenance mode when the last transition requested in the history
  was an entry.
\<close>

definition host_in_maintenance :: "world \<Rightarrow> bool" where
  "host_in_maintenance w =
     (case rev (filter (\<lambda>ev. case ev of EnterMaintenanceModeCall _ _ _ \<Rightarrow> True
                               | ExitMaintenanceModeCall _ _ _ \<Rightarrow> True | _ \<Rightarrow> False)
                 (map snd (trace w))) of
        [] \<Rightarrow> False
      | ev # _ \<Rightarrow> (case ev of EnterMaintenanceModeCall _ _ _ \<Rightarrow> True | _ \<Rightarrow> False))"

definition calm_ssh :: "world \<Rightarrow> nat \<Rightarrow> string \<Rightarrow> nat \<Rightarrow> ssh_outcome \<times> nat" where
  "calm_ssh w c cmd tmo =
     (if cmd = filesystem_list_cmd then (Exited 0 ''/vmfs/volumes/ds1'' [], 1)
      else (Exited 0 [] [], 1))"

text \<open>
  An environment in which every call succeeds at once: no workloads, both ports always
  answer, tasks succeed.
\<close>

definition calm_env :: env where
  "calm_env = \<lparr>
     ssh_run = calm_ssh,
     tcp_probe = (\<lambda>w addr port. (Ok 0, 0)),
     smart_connect = (\<lambda>w addr port. (Ok 1, 0)),
     host_system_view = (\<lambda>w si. (Ok [7], 0)),
     read_parent = (\<lambda>w h. (Ok NoParent, 0)),
     enable_services = (\<lambda>w h. (True, 0)),
     disable_services = (\<lambda>w h. (True, 0)),
     ssh_connect_to = (\<lambda>w addr port. (Ok 2, 0)),
     ssh_close = (\<lambda>w c. (Ok (), 0)),
     disconnect = (\<lambda>w si. (Ok (), 0)),
     path_exists = (\<lambda>w f. (True, 0)),
     get_size = (\<lambda>w f. (Ok 1000, 0)),
     sftp_open = (\<lambda>w c. (Ok (), 0)),
     sftp_stat = (\<lambda>w f. (Ok 1000, 0)),
     sftp_put = (\<lambda>w f g. (Ok (), 0)),
     sftp_close = (\<lambda>w. (Ok (), 0)),
     read_in_maintenance_mode = (\<lambda>w h. (Ok (host_in_maintenance w), 0)),
     enter_maintenance_call = (\<lambda>w h t. (Ok (), 0)),
     exit_maintenance_call = (\<lambda>w h t. (Ok (), 0)),
     read_task_state = (\<lambda>w. (Ok Success, 0)),
     reboot_call = (\<lambda>w h. (Ok (), 0)),
     read_full_name = (\<lambda>w h. (Ok ''VMware ESXi'', 0))\<rparr>"

text \<open>The calm environment with a local patch file one byte longer than its remote copy.\<close>

definition short_upload_env :: env where
  "short_upload_env = calm_env\<lparr>get_size := (\<lambda>w f. (Ok 1001, 0))\<rparr>"

text \<open>An environment whose remote shell fails every command with exit status 1.\<close>

definition deaf_env :: env where
  "deaf_env = calm_env\<lparr>ssh_run := (\<lambda>w c cmd tmo. (Exited 1 [] ''error'', 1))\<rparr>"

text \<open>
  One workload, id 1, that is powered on and reports \<^verbatim>\<open>Powered off\<close> as soon as a graceful
  shutdown has been requested; every command returns at once.
\<close>

definition late_off_ssh :: "world \<Rightarrow> nat \<Rightarrow> string \<Rightarrow> nat \<Rightarrow> ssh_outcome \<times> nat" where
  "late_off_ssh w c cmd tmo =
     (if cmd = getstate_cmd ''1'' then
        (if list_ex (\<lambda>x. case snd x of SshCommand _ cmd' _ _ \<Rightarrow> cmd' = shutdown_cmd ''1'' | _ \<Rightarrow> False)
              (trace w)
         then (Exited 0 ''Powered off'' [], 0) else (Exited 0 ''Powered on'' [], 0))
      else if cmd = getallvms_cmd then (Exited 0 ''1'' [], 0)
      else (Exited 0 [] [], 0))"

definition late_off_env :: env where
  "late_off_env = calm_env\<lparr>ssh_run := late_off_ssh\<rparr>"

text \<open>
  One workload, id 1, that stays powered on: a state query takes 200 seconds and the forced
  power-off fails.
\<close>

definition stuck_ssh :: "world \<Rightarrow> nat \<Rightarrow> string \<Rightarrow> nat \<Rightarrow> ssh_outcome \<times> nat" where
  "stuck_ssh w c cmd tmo =
     (if cmd = filesystem_list_cmd then (Exited 0 ''/vmfs/volumes/ds1'' [], 1)
      else if cmd = getallvms_cmd then (Exited 0 ''1'' [], 1)
      else if cmd = getstate_cmd ''1'' then (Exited 0 ''Powered on'' [], 200)
      else if cmd = poweroff_cmd ''1'' then (Exited 1 [] ''busy'', 1)
      else (Exited 0 [] [], 1))"

definition stuck_env :: env where
  "stuck_env = calm_env\<lparr>ssh_run := stuck_ssh\<rparr>"

text \<open>A power-on command of the shell client \<open>c\<close> that succeeded.\<close>

definition is_started :: "nat \<Rightarrow> event \<Rightarrow> bool" where
  "is_started c ev =
     (case ev of
        SshCommand c' cmd tmo a \<Rightarrow>
          c' = c \<and> startswith cmd ''vim-cmd vmsvc/power.on '' \<and> fst (ssh_result a)
      | _ \<Rightarrow> False)"

text \<open>
  The events the startup loop may produce for one workload: a state query that does not
  report Off and nothing else, or a state query that reports Off followed by one power-on
  command.
\<close>

definition start_shape :: "nat \<Rightarrow> string \<Rightarrow> event list \<Rightarrow> bool" where
  "start_shape c vm es =
     ((\<exists>a. es = [SshCommand c (getstate_cmd vm) 60 a] \<and> \<not> reports_off a) \<or>
      (\<exists>a a'. es = [SshCommand c (getstate_cmd vm) 60 a, SshCommand c (poweron_cmd vm) 60 a'] \<and>
              reports_off a))"

text \<open>Two workloads, ids 1 and 2, both powered off; every command succeeds.\<close>

definition two_off_ssh :: "world \<Rightarrow> nat \<Rightarrow> string \<Rightarrow> nat \<Rightarrow> ssh_outcome \<times> nat" where
  "two_off_ssh w c cmd tmo =
     (if cmd = getallvms_cmd then (Exited 0 (''1'' @ [CHR 0x0A] @ ''2'') [], 1)
      else if cmd = getstate_cmd ''1'' \<or> cmd = getstate_cmd ''2'' then (Exited 0 ''Powered off'' [], 1)
      else (Exited 0 [] [], 1))"

definition two_off_env :: env where
  "two_off_env = calm_env\<lparr>ssh_run := two_off_ssh\<rparr>"

text \<open>
  The calm environment during a reboot: the first probe after \<^verbatim>\<open>wait_for_host_reboot\<close> is
  entered finds the port closed (connection refused), every later probe connects.
\<close>

definition reboot_probe :: "world \<Rightarrow> string \<Rightarrow> int \<Rightarrow> int outcome \<times> nat" where
  "reboot_probe w addr port =
     (if trace w \<noteq> [] \<and> snd (last (trace w)) = Invoke M_wait_for_host_reboot then (Ok 111, 0)
      else (Ok 0, 0))"

definition reboot_env :: env where
  "reboot_env = calm_env\<lparr>tcp_probe := reboot_probe\<rparr>"

text \<open>A host configured with a remote-shell port and an API port other than 22 and 443.\<close>

definition host2 :: ESXiHost where
  "host2 = \<lparr>name = ''esx2'', ip = ''10.0.0.2'', username = ''root'', password = ''pw'',
            ssh_port = 2222, api_port = 8443\<rparr>"

text \<open>An invocation marker or a return marker of \<open>call\<close>.\<close>

definition is_marker :: "event \<Rightarrow> bool" where
  "is_marker ev = (case ev of Invoke _ \<Rightarrow> True | Return _ _ \<Rightarrow> True | _ \<Rightarrow> False)"

text \<open>
  \<open>extends w w'\<close>: the world \<open>w'\<close> continues \<open>w\<close> (the trace is extended, the clock has not
  gone back). \<open>quiet w w'\<close>: moreover no marker was added.
\<close>

definition extends :: "world \<Rightarrow> world \<Rightarrow> bool" where
  "extends w w' =
     (clock w \<le> clock w' \<and> length (trace w) \<le> length (trace w') \<and>
      take (length (trace w)) (trace w') = trace w)"

definition quiet :: "world \<Rightarrow> world \<Rightarrow> bool" where
  "quiet w w' = (extends w w' \<and> list_all (\<lambda>ev. \<not> is_marker ev) (new_events w w'))"

text \<open>
  The timed events of a wait loop for the workload \<open>vm\<close>, begun at \<open>start\<close> with timeout
  \<open>T\<close>: rounds of a 5 second sleep, entered while less than \<open>T\<close> has elapsed, each followed at
  once by a state poll; a poll that reports Off ends the loop.
\<close>

fun wait_rounds :: "nat \<Rightarrow> string \<Rightarrow> int \<Rightarrow> int \<Rightarrow> (int \<times> event) list \<Rightarrow> bool" where
  "wait_rounds c vm start T [] = True"
| "wait_rounds c vm start T [x] = False"
| "wait_rounds c vm start T (x # y # rest) =
     (snd x = Sleep 5 \<and> fst x - start < T \<and> fst y = fst x + 5 \<and> is_poll c vm (snd y) \<and>
      (poll_off c vm (snd y) \<longrightarrow> rest = []) \<and> wait_rounds c vm start T rest)"

text \<open>The events of one workload in the startup loop end in a power-on command that failed.\<close>

definition poweron_failed :: "event list \<Rightarrow> bool" where
  "poweron_failed es =
     (\<exists>q c' cmd tmo a'. es = [q, SshCommand c' cmd tmo a'] \<and> \<not> fst (ssh_result a'))"

text \<open>One workload, id 1, that reports \<^verbatim>\<open>Powered off\<close> from second 8 on; commands return at once.\<close>

definition slow_off_ssh :: "world \<Rightarrow> nat \<Rightarrow> string \<Rightarrow> nat \<Rightarrow> ssh_outcome \<times> nat" where
  "slow_off_ssh w c cmd tmo =
     (if cmd = getstate_cmd ''1'' then
        (if 8 \<le> clock w then (Exited 0 ''Powered off'' [], 0) else (Exited 0 ''Powered on'' [], 0))
      else (Exited 0 [] [], 0))"

definition slow_off_env :: env where
  "slow_off_env = calm_env\<lparr>ssh_run := slow_off_ssh\<rparr>"

text \<open>One workload, id 1, that always reports \<^verbatim>\<open>Powered on\<close>; commands return at once.\<close>

definition hung_ssh :: "world \<Rightarrow> nat \<Rightarrow> string \<Rightarrow> nat \<Rightarrow> ssh_outcome \<times> nat" where
  "hung_ssh w c cmd tmo =
     (if cmd = getstate_cmd ''1'' then (Exited 0 ''Powered on'' [], 0) else (Exited 0 [] [], 0))"

definition hung_env :: env where
  "hung_env = calm_env\<lparr>ssh_run := hung_ssh\<rparr>"

text \<open>Three workloads, ids 1 to 3, all powered off; the power-on of workload 1 fails.\<close>

definition three_off_ssh :: "world \<Rightarrow> nat \<Rightarrow> string \<Rightarrow> nat \<Rightarrow> ssh_outcome \<times> nat" where
  "three_off_ssh w c cmd tmo =
     (if cmd = getallvms_cmd then (Exited 0 (''1'' @ [CHR 0x0A] @ ''2'' @ [CHR 0x0A] @ ''3'') [], 1)
      else if cmd = getstate_cmd ''1'' \<or> cmd = getstate_cmd ''2'' \<or> cmd = getstate_cmd ''3''
        then (Exited 0 ''Powered off'' [], 1)
      else if cmd = poweron_cmd ''1'' then (Exited 1 [] ''failed'', 1)
      else (Exited 0 [] [], 1))"

definition three_off_env :: env where
  "three_off_env = calm_env\<lparr>ssh_run := three_off_ssh\<rparr>"

text \<open>
  A clustered host that refuses maintenance mode: the parent of the host object is a cluster,
  and the request to enter maintenance mode raises.
\<close>

definition refusing_cluster_env :: env where
  "refusing_cluster_env = calm_env\<lparr>
     read_parent := (\<lambda>w h. (Ok ClusterComputeResource, 0)),
     enter_maintenance_call := (\<lambda>w h t. (Raised ''denied'', 0))\<rparr>"

text \<open>The host of \<open>stuck_env\<close>, with its stuck workload, as a member of a cluster.\<close>

definition stuck_cluster_env :: env where
  "stuck_cluster_env = stuck_env\<lparr>read_parent := (\<lambda>w h. (Ok ClusterComputeResource, 0))\<rparr>"

section \<open>Basic facts\<close>

lemma perform_trace:
  "perform a mk w = (r, w') \<Longrightarrow> trace w' = trace w @ [(clock w, mk r)]"
  by (auto simp: perform_def split: prod.splits)

lemma new_events_self [simp]: "new_events w w = []"
  by (simp add: new_events_def)

lemma new_events_step:
  "trace w' = trace w @ tr \<Longrightarrow> new_events w w' = map snd tr"
  by (simp add: new_events_def)

lemma ssh_execute_with_output_trace:
  "ssh_execute_with_output e c cmd t w = ((ok, out, err), w') \<Longrightarrow>
     \<exists>a. trace w' = trace w @ [(clock w, SshCommand c cmd t a)] \<and> ok = ssh_ok a"
  unfolding ssh_execute_with_output_def ssh_ok_def
  by (auto split: prod.splits ssh_outcome.splits dest: perform_trace)

lemma endswith_nonempty: "endswith n (c # cs) \<Longrightarrow> n \<noteq> []"
  by (auto simp: endswith_def)

lemma endswith_same_length:
  "endswith n a \<Longrightarrow> endswith n b \<Longrightarrow> length a = length b \<Longrightarrow> a = b"
  by (auto simp: endswith_def)

lemma install_run:
  assumes "patch_name p = Some n" "n \<noteq> []" "install_cmd (ds @ ''/'' @ n) n = Some cmd"
  shows "\<exists>a. new_events w (snd (install_patch_via_ssh e p c ds w)) = [SshCommand c cmd 1200 a] \<and>
             fst (install_patch_via_ssh e p c ds w) = ssh_ok a"
proof -
  obtain ok out err w' where r: "ssh_execute_with_output e c cmd 1200 w = ((ok, out, err), w')"
    by (cases "ssh_execute_with_output e c cmd 1200 w") auto
  from ssh_execute_with_output_trace[OF r] obtain a where
    a: "trace w' = trace w @ [(clock w, SshCommand c cmd 1200 a)]" "ok = ssh_ok a" by blast
  have "install_patch_via_ssh e p c ds w = (ok, w')"
    using assms r by (simp add: install_patch_via_ssh_def truthy_str_def fmt_opt_def)
  with a show ?thesis by (auto simp: new_events_step)
qed

lemma install_none:
  assumes "patch_name p = Some n" "install_cmd (ds @ ''/'' @ n) n = None"
  shows "install_patch_via_ssh e p c ds w = (False, w)"
  using assms by (simp add: install_patch_via_ssh_def truthy_str_def fmt_opt_def)

lemma trace_snd_perform:
  "trace (snd (perform a mk w)) = trace w @ [(clock w, mk (fst (a w)))]"
  by (simp add: perform_def split: prod.splits)

lemma copy_shape:
  assumes r: "copy_patch_via_scp e p c host ds w = (ok, w')"
    and pf: "patch_file p = Some pf"
    and st: "SftpStat (ds @ ''/'' @ fmt_opt (patch_name p)) (Ok rs) \<in> set (new_events w w')"
    and gs: "GetSize pf (Ok ls) \<in> set (new_events w w')"
  shows "\<exists>a x. new_events w w' =
           [PathExists pf True, SftpOpen c (Ok ()), SftpStat ds (Ok a),
            SftpPut pf (ds @ ''/'' @ fmt_opt (patch_name p)) (Ok ()),
            SftpStat (ds @ ''/'' @ fmt_opt (patch_name p)) (Ok rs), GetSize pf (Ok ls), SftpClose x]
          \<and> ok = (rs = ls \<and> x = Ok ())"
  using r pf st gs
  unfolding copy_patch_via_scp_def Let_def
  apply (simp split: if_splits prod.splits bool.splits outcome.splits)
  apply (auto dest!: perform_trace simp: new_events_def trace_snd_perform)
  done

lemma copy_true:
  assumes r: "copy_patch_via_scp e p c host ds w = (True, w')"
  shows "\<exists>pf a sz. patch_file p = Some pf \<and> new_events w w' =
           [PathExists pf True, SftpOpen c (Ok ()), SftpStat ds (Ok a),
            SftpPut pf (ds @ ''/'' @ fmt_opt (patch_name p)) (Ok ()),
            SftpStat (ds @ ''/'' @ fmt_opt (patch_name p)) (Ok sz), GetSize pf (Ok sz),
            SftpClose (Ok ())]"
  using r
  unfolding copy_patch_via_scp_def Let_def
  apply (simp split: if_splits prod.splits bool.splits outcome.splits option.splits)
  apply (auto dest!: perform_trace simp: new_events_def trace_snd_perform)
  done

declare wait_for_task_loop.simps [simp del] graceful_wait.simps [simp del]
  wait_for_ssh_loop.simps [simp del] up_detection.simps [simp del]

lemma perform_fst: "perform a mk w = (r, w') \<Longrightarrow> r = fst (a w)"
  by (auto simp: perform_def split: prod.splits)

lemma perform_facts:
  "perform a mk w = (r, w') \<Longrightarrow>
     r = fst (a w) \<and> trace w' = trace w @ [(clock w, mk r)] \<and> clock w' = clock w + int (snd (a w))"
  by (auto simp: perform_def split: prod.splits)

lemma ssh_execute_facts:
  assumes "ssh_execute e c cmd w = (r, w')"
  shows "\<exists>a. r = ssh_result a \<and> trace w' = trace w @ [(clock w, SshCommand c cmd 60 a)] \<and>
         clock w \<le> clock w'"
proof -
  obtain a d where o: "ssh_run e w c cmd 60 = (a, d)"
    by (cases "ssh_run e w c cmd 60")
  define w1 where "w1 = w\<lparr>clock := clock w + int d, trace := trace w @ [(clock w, SshCommand c cmd 60 a)]\<rparr>"
  have p: "perform (\<lambda>w. ssh_run e w c cmd 60) (SshCommand c cmd 60) w = (a, w1)"
    by (simp add: perform_def o w1_def)
  have "r = ssh_result a \<and> w' = w1"
  proof (cases a)
    case (Exited exit_code out err)
    then show ?thesis using assms p
      by (simp add: ssh_execute_def ssh_execute_with_output_def ssh_result_def split: if_splits)
  next
    case (SshRaised m)
    then show ?thesis using assms p
      by (simp add: ssh_execute_def ssh_execute_with_output_def ssh_result_def)
  qed
  then show ?thesis by (intro exI[of _ a]) (simp add: w1_def)
qed

lemma down_detection_unfold:
  "down_detection e host n w =
     (if n = 0 then (False, w)
      else (case probe e (ip host) 22 w of
        (Ok result, w1) \<Rightarrow>
          if result \<noteq> 0 then (True, w1)
          else down_detection e host (n - 1) (sleep 5 w1)
      | (Raised _, w1) \<Rightarrow> down_detection e host (n - 1) (sleep 5 w1)))"
  by (cases n) (auto split: prod.splits outcome.splits option.splits)

lemma reconnect_api_unfold:
  "reconnect_api e host n w =
     (if n = 0 then (None, w)
      else (case call M_connect_api is_some (connect_api e host) w of
        (Some si, w1) \<Rightarrow> (Some si, w1)
      | (None, w1) \<Rightarrow> reconnect_api e host (n - 1) (if 0 < n - 1 then sleep 30 w1 else w1)))"
  by (cases n) (auto split: prod.splits outcome.splits option.splits)

lemmas string_defs = startswith_def endswith_def py_isspace_def lstrip_def rstrip_def strip_def
  rstrip_slash_def is_linebreak_def splitlines_def fmt_opt_def truthy_str_def is_digit_def

lemmas prim_defs = perform_def sleep_def mark_def call_def probe_def is_some_def new_events_def

lemmas op_defs = ssh_execute_with_output_def ssh_execute_def install_cmd_def install_patch_via_ssh_def
  copy_patch_via_scp_def wait_for_task_def enter_maintenance_mode_def exit_maintenance_mode_def
  getallvms_cmd_def getstate_cmd_def shutdown_cmd_def poweroff_cmd_def poweron_cmd_def parse_vm_ids_def
  shutdown_vm_def check_and_shutdown_vms_def start_vm_def start_vms_loop_def start_vms_after_reboot_def
  wait_for_ssh_def wait_for_host_reboot_def connect_api_def get_host_system_def is_host_in_cluster_def
  enable_services_via_api_def disable_services_via_api_def ssh_connect_def filesystem_list_cmd_def
  volumes_ls_cmd_def find_boot_datastore_def patch_present_def verify_patch_installation_def
  cleanup_patch_file_def reboot_host_def
  wait_for_task_loop.simps graceful_wait.simps wait_for_ssh_loop.simps up_detection.simps
  down_detection_unfold reconnect_api_unfold

lemmas vocab_defs = ssh_ok_def ssh_result_def reports_off_def is_poll_def poll_off_def is_poweroff_def
  is_started_def start_shape_def is_marker_def

lemmas calm_defs = calm_env_def calm_ssh_def reboot_probe_def reboot_env_def host_in_maintenance_def host1_def host2_def
  patcher1_def world0_def short_upload_env_def deaf_env_def
  late_off_env_def late_off_ssh_def stuck_env_def stuck_ssh_def
  two_off_env_def two_off_ssh_def slow_off_env_def slow_off_ssh_def hung_env_def hung_ssh_def
  three_off_env_def three_off_ssh_def

lemma trace_sleep: "trace (sleep n w) = trace w @ [(clock w, Sleep n)]"
  by (simp add: sleep_def perform_def)

lemma poll_off_iff:
  "poll_off c vm (SshCommand c (getstate_cmd vm) 60 a) =
     (fst (ssh_result a) \<and> py_in ''Powered off'' (snd (ssh_result a)))"
  by (simp add: poll_off_def reports_off_def)

lemma cmd_distinct:
  "getstate_cmd vm \<noteq> poweroff_cmd vm" "shutdown_cmd vm \<noteq> poweroff_cmd vm"
  "getstate_cmd vm \<noteq> shutdown_cmd vm" "poweron_cmd vm \<noteq> getstate_cmd vm"
  by (simp_all add: getstate_cmd_def poweroff_cmd_def shutdown_cmd_def poweron_cmd_def)

lemma not_poweroff [simp]:
  "\<not> is_poweroff c vm (Sleep n)"
  "\<not> is_poweroff c vm (SshCommand c' (getstate_cmd vm) t a)"
  "\<not> is_poweroff c vm (SshCommand c' (shutdown_cmd vm) t a)"
  "is_poweroff c vm (SshCommand c (poweroff_cmd vm) t a)"
  using cmd_distinct[of vm] by (simp_all add: is_poweroff_def)

lemma is_poll_simps [simp]:
  "\<not> is_poll c vm (Sleep n)"
  "is_poll c vm (SshCommand c (getstate_cmd vm) t a)"
  "\<not> is_poll c vm (SshCommand c' (poweroff_cmd vm) t a)"
  using cmd_distinct[of vm] by (simp_all add: is_poll_def)

lemma poll_not_poweroff: "is_poll c vm ev \<Longrightarrow> \<not> is_poweroff c vm ev"
  using cmd_distinct[of vm] by (auto simp: is_poll_def is_poweroff_def split: event.splits)

lemma poll_off_is_poll: "poll_off c vm ev \<Longrightarrow> is_poll c vm ev"
  by (auto simp: is_poll_def poll_off_def split: event.splits)

lemma is_started_simps:
  "is_started c (SshCommand c (getstate_cmd vm) t a) = False"
  "is_started c (SshCommand c (poweron_cmd vm) t a) = fst (ssh_result a)"
  by (simp_all add: is_started_def getstate_cmd_def poweron_cmd_def startswith_def)

lemma up_detection_first_round:
  assumes "\<And>v. fst (tcp_probe e v (ip host) 22) = Ok 0"
    and "\<And>v. fst (tcp_probe e v (ip host) 443) = Ok 0"
  shows "fst (up_detection e host (clock w) w) = True"
  using assms
  by (subst up_detection.simps) (simp add: probe_def perform_def case_prod_beta)

lemma wait_for_host_reboot_reachable:
  assumes "\<And>v. fst (tcp_probe e v (ip host) 22) = Ok 0"
    and "\<And>v. fst (tcp_probe e v (ip host) 443) = Ok 0"
  shows "fst (wait_for_host_reboot e host tmo w) = True"
  using up_detection_first_round[OF assms]
  by (simp add: wait_for_host_reboot_def case_prod_beta)

lemma graceful_wait_spec:
  "graceful_wait e c vm start T w = (b, w') \<Longrightarrow>
     \<exists>tr. trace w' = trace w @ tr \<and> clock w \<le> clock w' \<and>
       wait_rounds c vm start T tr \<and>
       (b \<longleftrightarrow> list_ex (\<lambda>x. poll_off c vm (snd x)) tr) \<and>
       (\<not> b \<longrightarrow> T \<le> clock w' - start) \<and>
       (clock w - start < T \<longrightarrow> tr \<noteq> []) \<and>
       list_all (\<lambda>x. fst x = clock w) (take 1 tr)"
proof (induction e c vm start T w arbitrary: b w' rule: graceful_wait.induct)
  case (1 e c vm start T w)
  show ?case
  proof (cases "clock w - start < T")
    case False
    with "1.prems" have "b = False" "w' = w" by (simp_all add: graceful_wait.simps)
    with False show ?thesis by (intro exI[of _ "[]"]) simp
  next
    case True
    obtain ok st w1 where x: "ssh_execute e c (getstate_cmd vm) (sleep 5 w) = ((ok, st), w1)"
      by (cases "ssh_execute e c (getstate_cmd vm) (sleep 5 w)") auto
    from ssh_execute_facts[OF x] obtain a where
      a: "(ok, st) = ssh_result a"
         "trace w1 = trace (sleep 5 w) @ [(clock (sleep 5 w), SshCommand c (getstate_cmd vm) 60 a)]"
         "clock (sleep 5 w) \<le> clock w1" by blast
    let ?s = "(clock w, Sleep 5)"
    let ?p = "(clock w + 5, SshCommand c (getstate_cmd vm) 60 a)"
    have tr1: "trace w1 = trace w @ [?s, ?p]"
      using a(2) by (simp add: trace_sleep clock_sleep)
    have cl1: "clock w \<le> clock w1" using a(3) by (simp add: clock_sleep)
    have off: "poll_off c vm (SshCommand c (getstate_cmd vm) 60 a) = (ok \<and> py_in ''Powered off'' st)"
      using a(1)[symmetric] by (simp add: poll_off_iff)
    show ?thesis
    proof (cases "ok \<and> py_in ''Powered off'' st")
      case stop: True
      with True x "1.prems" have "b = True" "w' = w1"
        by (simp_all add: graceful_wait.simps)
      with tr1 cl1 off stop True show ?thesis
        by (intro exI[of _ "[?s, ?p]"]) simp
    next
      case False
      with True x "1.prems"
      have r: "graceful_wait e c vm start T w1 = (b, w')"
        by (simp add: graceful_wait.simps)
      from "1.IH"[OF True x[symmetric] refl False r] obtain tr where
        tr: "trace w' = trace w1 @ tr" "clock w1 \<le> clock w'"
          "wait_rounds c vm start T tr"
          "b \<longleftrightarrow> list_ex (\<lambda>x. poll_off c vm (snd x)) tr"
          "\<not> b \<longrightarrow> T \<le> clock w' - start" by blast
      show ?thesis
        using tr tr1 cl1 off False True
        by (intro exI[of _ "?s # ?p # tr"]) (simp add: poll_off_def)
    qed
  qed
qed

lemma wait_rounds_segment:
  "wait_rounds c vm start T tr \<Longrightarrow>
     list_all (\<lambda>x. snd x = Sleep 5 \<or> (is_poll c vm (snd x) \<and> fst x - start < T + 5)) tr"
  by (induction c vm start T tr rule: wait_rounds.induct) auto

lemma wait_segment_facts:
  assumes "list_all (\<lambda>x. snd x = Sleep 5 \<or> (is_poll c vm (snd x) \<and> fst x - start < T + 5)) tr"
  shows "list_all (\<lambda>x. \<not> is_poweroff c vm (snd x)) tr"
    and "filter (\<lambda>x. is_poweroff c vm (snd x)) tr = []"
    and "list_all (\<lambda>x. fst x - start < T + 5) (filter (\<lambda>x. is_poll c vm (snd x)) tr)"
  using assms
  by (induction tr) (auto dest: poll_not_poweroff)

lemma poweron_failed_simps:
  "poweron_failed [x] = False"
  "poweron_failed [x, SshCommand c cmd t a] = (\<not> fst (ssh_result a))"
  by (auto simp: poweron_failed_def)

lemma start_vm_spec:
  assumes "start_vm e c vm (n, failed, w) = (n', failed', w')"
  shows "\<exists>tr. trace w' = trace w @ tr \<and> start_shape c vm (map snd tr) \<and>
           n' = n + length (filter (is_started c) (map snd tr)) \<and>
           failed' = failed @ (if poweron_failed (map snd tr) then [vm] else [])"
proof -
  obtain ok st w1 where q: "ssh_execute e c (getstate_cmd vm) w = ((ok, st), w1)"
    by (cases "ssh_execute e c (getstate_cmd vm) w") auto
  from ssh_execute_facts[OF q] obtain a where
    a: "(ok, st) = ssh_result a" "trace w1 = trace w @ [(clock w, SshCommand c (getstate_cmd vm) 60 a)]"
    by blast
  have off: "reports_off a = (ok \<and> py_in ''Powered off'' st)"
    using a(1)[symmetric] by (simp add: reports_off_def)
  show ?thesis
  proof (cases "ok \<and> py_in ''Powered off'' st")
    case False
    with assms q have "n' = n" "failed' = failed" "w' = w1" by (auto simp: start_vm_def)
    with a(2) off False show ?thesis
      by (intro exI[of _ "[(clock w, SshCommand c (getstate_cmd vm) 60 a)]"])
        (simp add: start_shape_def is_started_simps poweron_failed_simps)
  next
    case True
    obtain ok2 st2 w2 where p: "ssh_execute e c (poweron_cmd vm) w1 = ((ok2, st2), w2)"
      by (cases "ssh_execute e c (poweron_cmd vm) w1") auto
    from ssh_execute_facts[OF p] obtain a2 where
      a2: "(ok2, st2) = ssh_result a2"
      "trace w2 = trace w1 @ [(clock w1, SshCommand c (poweron_cmd vm) 60 a2)]" by blast
    have ok2: "fst (ssh_result a2) = ok2" using a2(1)[symmetric] by simp
    from True assms q p have "n' = (if ok2 then n + 1 else n)"
      "failed' = (if ok2 then failed else failed @ [vm])" "w' = w2"
      by (auto simp: start_vm_def split: if_splits)
    with a(2) a2(2) off True ok2 show ?thesis
      by (intro exI[of _ "[(clock w, SshCommand c (getstate_cmd vm) 60 a),
                           (clock w1, SshCommand c (poweron_cmd vm) 60 a2)]"])
        (simp add: start_shape_def is_started_simps poweron_failed_simps)
  qed
qed

lemma start_fold_spec:
  "fold (start_vm e c) vms (n, failed, w) = (n', failed', w') \<Longrightarrow>
     \<exists>ess. list_all2 (start_shape c) vms ess \<and>
       map snd (drop (length (trace w)) (trace w')) = concat ess \<and>
       length (trace w) \<le> length (trace w') \<and>
       take (length (trace w)) (trace w') = trace w \<and>
       n' = n + length (filter (is_started c) (concat ess)) \<and>
       failed' = failed @ map fst (filter (\<lambda>x. poweron_failed (snd x)) (zip vms ess))"
proof (induction vms arbitrary: n failed w)
  case Nil
  then show ?case by (intro exI[of _ "[]"]) simp
next
  case (Cons vm vms)
  obtain n1 f1 w1 where s: "start_vm e c vm (n, failed, w) = (n1, f1, w1)"
    by (cases "start_vm e c vm (n, failed, w)") auto
  from start_vm_spec[OF s] obtain tr where
    tr: "trace w1 = trace w @ tr" "start_shape c vm (map snd tr)"
        "n1 = n + length (filter (is_started c) (map snd tr))"
        "f1 = failed @ (if poweron_failed (map snd tr) then [vm] else [])" by blast
  from Cons.prems s have "fold (start_vm e c) vms (n1, f1, w1) = (n', failed', w')" by simp
  from Cons.IH[OF this] obtain ess where
    ess: "list_all2 (start_shape c) vms ess"
      "map snd (drop (length (trace w1)) (trace w')) = concat ess"
      "length (trace w1) \<le> length (trace w')"
      "take (length (trace w1)) (trace w') = trace w1"
      "n' = n1 + length (filter (is_started c) (concat ess))"
      "failed' = f1 @ map fst (filter (\<lambda>x. poweron_failed (snd x)) (zip vms ess))" by blast
  from ess(3,4) have tw': "trace w' = trace w1 @ drop (length (trace w1)) (trace w')"
    by (metis append_take_drop_id)
  have d: "drop (length (trace w)) (trace w') = tr @ drop (length (trace w1)) (trace w')"
    by (subst tw') (simp add: tr(1))
  have t: "take (length (trace w)) (trace w') = trace w"
    by (subst tw') (simp add: tr(1))
  have l: "length (trace w) \<le> length (trace w')" using ess(3) tr(1) by simp
  show ?case
    using tr ess d t l by (intro exI[of _ "map snd tr # ess"]) simp
qed

lemma extendsI:
  "trace w' = trace w @ tr \<Longrightarrow> clock w \<le> clock w' \<Longrightarrow> extends w w'"
  by (simp add: extends_def)

lemma extends_trace:
  "extends w w' \<Longrightarrow> trace w' = trace w @ drop (length (trace w)) (trace w')"
  by (metis append_take_drop_id extends_def)

lemma extends_refl [simp]: "extends w w"
  by (simp add: extends_def)

lemma extends_trans: "extends w w1 \<Longrightarrow> extends w1 w2 \<Longrightarrow> extends w w2"
proof -
  assume a: "extends w w1" and b: "extends w1 w2"
  from extends_trace[OF a] obtain t1 where t1: "trace w1 = trace w @ t1" by blast
  from extends_trace[OF b] obtain t2 where t2: "trace w2 = trace w1 @ t2" by blast
  from a b have "clock w \<le> clock w2" by (simp add: extends_def)
  then show ?thesis using t1 t2 by (intro extendsI[of _ _ "t1 @ t2"]) simp_all
qed

lemma new_events_trans:
  assumes "extends w w1" "extends w1 w2"
  shows "new_events w w2 = new_events w w1 @ new_events w1 w2"
proof -
  from extends_trace[OF assms(1)] obtain t1 where t1: "trace w1 = trace w @ t1" by blast
  from extends_trace[OF assms(2)] obtain t2 where t2: "trace w2 = trace w1 @ t2" by blast
  show ?thesis by (simp add: new_events_def t1 t2)
qed

lemma quiet_extends: "quiet w w' \<Longrightarrow> extends w w'"
  by (simp add: quiet_def)

lemma quiet_refl [simp]: "quiet w w"
  by (simp add: quiet_def)

lemma quietI:
  "trace w' = trace w @ tr \<Longrightarrow> clock w \<le> clock w' \<Longrightarrow>
   list_all (\<lambda>x. \<not> is_marker (snd x)) tr \<Longrightarrow> quiet w w'"
  by (simp add: quiet_def extends_def new_events_def list_all_iff)

lemma quiet_trans: "quiet w w1 \<Longrightarrow> quiet w1 w2 \<Longrightarrow> quiet w w2"
  using new_events_trans[of w w1 w2] extends_trans[of w w1 w2]
  by (simp add: quiet_def)

lemma quiet_perform:
  "perform a mk w = (r, w') \<Longrightarrow> \<not> is_marker (mk r) \<Longrightarrow> quiet w w'"
  by (rule quietI[of _ _ "[(clock w, mk r)]"]) (auto dest: perform_facts)

lemma quiet_snd_perform:
  "(\<And>r. \<not> is_marker (mk r)) \<Longrightarrow> quiet w (snd (perform a mk w))"
  using quiet_perform[of a mk w "fst (perform a mk w)" "snd (perform a mk w)"] by simp

lemma quiet_sleep [simp]: "quiet w (sleep n w)"
  by (rule quietI[of _ _ "[(clock w, Sleep n)]"]) (simp_all add: trace_sleep clock_sleep is_marker_def)

lemma quiet_ssh_execute:
  "ssh_execute e c cmd w = (r, w') \<Longrightarrow> quiet w w'"
  by (drule ssh_execute_facts) (auto intro!: quietI simp: is_marker_def)

lemma quiet_snd_ssh_execute [simp]: "quiet w (snd (ssh_execute e c cmd w))"
  using quiet_ssh_execute[of e c cmd w "fst (ssh_execute e c cmd w)"] by simp

lemma quiet_ssh_execute_with_output:
  assumes "ssh_execute_with_output e c cmd t w = (r, w')"
  shows "quiet w w'"
proof -
  obtain x w1 where p: "perform (\<lambda>w. ssh_run e w c cmd t) (SshCommand c cmd t) w = (x, w1)"
    by (cases "perform (\<lambda>w. ssh_run e w c cmd t) (SshCommand c cmd t) w")
  have "w' = w1" using assms p by (cases x) (simp_all add: ssh_execute_with_output_def)
  with quiet_perform[OF p] show ?thesis by (simp add: is_marker_def)
qed

lemma extends_mark [simp]: "extends w (mark ev w)"
  by (simp add: extends_def mark_def)

lemma new_events_mark [simp]: "new_events w (mark ev w) = [ev]"
  by (simp add: new_events_def mark_def)

lemma quiet_wait_for_task_loop:
  "wait_for_task_loop e start tmo w = (r, w') \<Longrightarrow> quiet w w'"
proof (induction e start tmo w arbitrary: r w' rule: wait_for_task_loop.induct)
  case (1 e start tmo w)
  obtain x w1 where p: "perform (read_task_state e) ReadTaskState w = (x, w1)"
    by (cases "perform (read_task_state e) ReadTaskState w")
  have q1: "quiet w w1" using p by (rule quiet_perform) (simp add: is_marker_def)
  show ?case
  proof (cases x)
    case (Raised m)
    with p "1.prems" have "w' = w1" by (simp add: wait_for_task_loop.simps)
    with q1 show ?thesis by simp
  next
    case (Ok s)
    show ?thesis
    proof (cases "s = Success \<or> s = Error")
      case True
      with Ok p "1.prems" have "w' = w1" by (simp add: wait_for_task_loop.simps)
      with q1 show ?thesis by simp
    next
      case False
      show ?thesis
      proof (cases "clock w1 - start > tmo")
        case True
        with False Ok p "1.prems" have "w' = w1" by (simp add: wait_for_task_loop.simps)
        with q1 show ?thesis by simp
      next
        case nt: False
        with False Ok p "1.prems"
        have r: "wait_for_task_loop e start tmo (sleep 5 w1) = (r, w')"
          by (simp add: wait_for_task_loop.simps)
        from False have f: "\<not> (s = Success \<or> s = Error)" .
        have "quiet (sleep 5 w1) w'"
          using "1.IH"[OF p[symmetric] _ f nt r] Ok by simp
        with q1 show ?thesis by (blast intro: quiet_trans quiet_sleep)
      qed
    qed
  qed
qed

lemma quiet_wait_for_task:
  "wait_for_task e tmo w = (r, w') \<Longrightarrow> quiet w w'"
  unfolding wait_for_task_def
  by (auto split: prod.splits option.splits outcome.splits if_splits
      dest!: quiet_wait_for_task_loop quiet_perform simp: is_marker_def intro: quiet_trans)

lemma quiet_enter_maintenance_mode:
  "enter_maintenance_mode e h tmo w = (r, w') \<Longrightarrow> quiet w w'"
  unfolding enter_maintenance_mode_def
  by (auto split: prod.splits option.splits outcome.splits bool.splits if_splits
      dest!: quiet_wait_for_task quiet_perform simp: is_marker_def intro: quiet_trans)

lemma quiet_exit_maintenance_mode:
  "exit_maintenance_mode e h w = (r, w') \<Longrightarrow> quiet w w'"
  unfolding exit_maintenance_mode_def
  by (auto split: prod.splits option.splits outcome.splits bool.splits if_splits
      dest!: quiet_wait_for_task quiet_perform simp: is_marker_def intro: quiet_trans)

lemma quiet_graceful_wait:
  assumes "graceful_wait e c vm start T w = (b, w')"
  shows "quiet w w'"
proof -
  from graceful_wait_spec[OF assms] obtain tr where
    tr: "trace w' = trace w @ tr" "clock w \<le> clock w'" "wait_rounds c vm start T tr"
    by blast
  have "list_all (\<lambda>x. \<not> is_marker (snd x)) tr"
    using wait_rounds_segment[OF tr(3)]
    by (induction tr) (auto simp: is_marker_def is_poll_def split: event.splits)
  with tr show ?thesis by (intro quietI)
qed

lemma quiet_shutdown_vm:
  assumes "shutdown_vm e c T vm (failed, w) = (failed', w')"
  shows "quiet w w'"
proof -
  obtain ok st w1 where q: "ssh_execute e c (getstate_cmd vm) w = ((ok, st), w1)"
    by (cases "ssh_execute e c (getstate_cmd vm) w") auto
  note q1 = quiet_ssh_execute[OF q]
  show ?thesis
  proof (cases ok)
    case False
    with assms q have "w' = snd (ssh_execute e c (poweroff_cmd vm) w1)"
      by (simp add: shutdown_vm_def split: prod.splits)
    with q1 show ?thesis by (auto intro: quiet_trans)
  next
    case True
    show ?thesis
    proof (cases "py_in ''Powered on'' st")
      case False
      with True assms q have "w' = w1" by (simp add: shutdown_vm_def)
      with q1 show ?thesis by simp
    next
      case on: True
      obtain r2 w2 where sd: "ssh_execute e c (shutdown_cmd vm) w1 = (r2, w2)"
        by (cases "ssh_execute e c (shutdown_cmd vm) w1")
      obtain b w3 where g: "graceful_wait e c vm (clock w2) T w2 = (b, w3)"
        by (cases "graceful_wait e c vm (clock w2) T w2")
      have q3: "quiet w w3"
        using q1 quiet_ssh_execute[OF sd] quiet_graceful_wait[OF g] by (blast intro: quiet_trans)
      show ?thesis
      proof (cases b)
        case True
        with \<open>ok\<close> on assms q sd g have "w' = w3" by (simp add: shutdown_vm_def)
        with q3 show ?thesis by simp
      next
        case False
        obtain okf o4 w4 where p: "ssh_execute e c (poweroff_cmd vm) w3 = ((okf, o4), w4)"
          by (cases "ssh_execute e c (poweroff_cmd vm) w3") auto
        have q4: "quiet w w4" using q3 quiet_ssh_execute[OF p] by (blast intro: quiet_trans)
        show ?thesis
        proof (cases okf)
          case False
          with \<open>\<not> b\<close> \<open>ok\<close> on assms q sd g p have "w' = w4" by (simp add: shutdown_vm_def)
          with q4 show ?thesis by simp
        next
          case True
          with \<open>\<not> b\<close> \<open>ok\<close> on assms q sd g p
          have "w' = snd (ssh_execute e c (getstate_cmd vm) (sleep 5 w4))"
            by (simp add: shutdown_vm_def split: prod.splits)
          moreover have "quiet w4 (snd (ssh_execute e c (getstate_cmd vm) (sleep 5 w4)))"
            by (rule quiet_trans[OF quiet_sleep quiet_snd_ssh_execute])
          ultimately show ?thesis using q4 by (auto intro: quiet_trans)
        qed
      qed
    qed
  qed
qed

lemma quiet_fold_shutdown_vm:
  "fold (shutdown_vm e c T) vms (failed, w) = (failed', w') \<Longrightarrow> quiet w w'"
proof (induction vms arbitrary: failed w)
  case Nil
  then show ?case by simp
next
  case (Cons vm vms)
  obtain f1 w1 where s: "shutdown_vm e c T vm (failed, w) = (f1, w1)"
    by (cases "shutdown_vm e c T vm (failed, w)")
  with Cons.prems have "fold (shutdown_vm e c T) vms (f1, w1) = (failed', w')" by simp
  from Cons.IH[OF this] quiet_shutdown_vm[OF s] show ?case by (blast intro: quiet_trans)
qed

lemma quiet_check_and_shutdown_vms:
  assumes "check_and_shutdown_vms e c T w = (r, w')"
  shows "quiet w w'"
proof -
  obtain ok out w1 where q: "ssh_execute e c getallvms_cmd w = ((ok, out), w1)"
    by (cases "ssh_execute e c getallvms_cmd w") auto
  note q1 = quiet_ssh_execute[OF q]
  show ?thesis
  proof (cases "\<not> ok \<or> strip out = []")
    case True
    with assms q have "w' = w1" by (auto simp: check_and_shutdown_vms_def)
    with q1 show ?thesis by simp
  next
    case False
    obtain f2 w2 where f: "fold (shutdown_vm e c T) (parse_vm_ids out) ([], w1) = (f2, w2)"
      by (cases "fold (shutdown_vm e c T) (parse_vm_ids out) ([], w1)")
    have q2: "quiet w w2" using q1 quiet_fold_shutdown_vm[OF f] by (blast intro: quiet_trans)
    from False assms q f
    have "w' = (if f2 \<noteq> [] then snd (ssh_execute e c getallvms_cmd w2) else w2)"
      by (simp add: check_and_shutdown_vms_def split: if_splits)
    with q2 show ?thesis by (auto intro: quiet_trans)
  qed
qed

lemma call_facts:
  assumes c: "call m truth f w = (r, w')"
    and f: "\<And>v r v'. f v = (r, v') \<Longrightarrow> quiet v v'"
  shows "\<exists>A. list_all (\<lambda>ev. \<not> is_marker ev) A \<and>
           new_events w w' = Invoke m # A @ [Return m (truth r)] \<and> extends w w' \<and>
           fst (f (mark (Invoke m) w)) = r"
proof -
  obtain w1 where r: "f (mark (Invoke m) w) = (r, w1)" and w': "w' = mark (Return m (truth r)) w1"
    using c by (auto simp: call_def split: prod.splits)
  from f[OF r] have q: "quiet (mark (Invoke m) w) w1" .
  have e1: "extends w w1" using q by (blast intro: extends_trans extends_mark quiet_extends)
  have e2: "extends w w'" unfolding w' using e1 by (blast intro: extends_trans extends_mark)
  have "new_events w w' = new_events w (mark (Invoke m) w) @ new_events (mark (Invoke m) w) w1
          @ new_events w1 (mark (Return m (truth r)) w1)"
    unfolding w'
    using new_events_trans[OF e1 extends_mark[of w1 "Return m (truth r)"]]
      new_events_trans[OF extends_mark[of w "Invoke m"] quiet_extends[OF q]]
    by simp
  then show ?thesis using q e2 r
    by (intro exI[of _ "new_events (mark (Invoke m) w) w1"]) (simp add: quiet_def)
qed

lemma call_shape:
  assumes c: "call m truth f w = (r, w')"
    and f: "\<forall>v r v'. f v = (r, v') \<longrightarrow> quiet v v'"
  shows "\<exists>v'. f (mark (Invoke m) w) = (r, v') \<and> w' = mark (Return m (truth r)) v' \<and>
           list_all (\<lambda>ev. \<not> is_marker ev) (new_events (mark (Invoke m) w) v') \<and>
           new_events w w' = Invoke m # new_events (mark (Invoke m) w) v' @ [Return m (truth r)] \<and>
           extends w w'"
proof -
  obtain w1 where r: "f (mark (Invoke m) w) = (r, w1)" and w': "w' = mark (Return m (truth r)) w1"
    using c by (auto simp: call_def split: prod.splits)
  from f r have q: "quiet (mark (Invoke m) w) w1" by blast
  have e1: "extends w w1" using q by (blast intro: extends_trans extends_mark quiet_extends)
  have e2: "extends w w'" unfolding w' using e1 by (blast intro: extends_trans extends_mark)
  have "new_events w w' = new_events w (mark (Invoke m) w) @ new_events (mark (Invoke m) w) w1
          @ new_events w1 (mark (Return m (truth r)) w1)"
    unfolding w'
    using new_events_trans[OF e1 extends_mark[of w1 "Return m (truth r)"]]
      new_events_trans[OF extends_mark[of w "Invoke m"] quiet_extends[OF q]]
    by simp
  then show ?thesis using q e2 r w'
    by (intro exI[of _ w1]) (simp add: quiet_def)
qed

lemma steps_7_8_shape:
  assumes s78: "process_host_steps_7_8 e h clustered c w = (res, w')"
  shows "\<exists>mm v v' A.
           enter_maintenance_mode e h 0 v = (mm, v') \<and> A = new_events v v' \<and>
           list_all (\<lambda>ev. \<not> is_marker ev) A \<and>
           res = (if mm then None else Some Msg_maintenance_failed) \<and> extends w w' \<and>
           (if clustered \<and> \<not> mm
            then new_events w w' =
                   Invoke M_enter_maintenance_mode # A @ [Return M_enter_maintenance_mode False]
            else \<exists>sd u u' B.
                   check_and_shutdown_vms e c 180 u = (sd, u') \<and> B = new_events u u' \<and>
                   list_all (\<lambda>ev. \<not> is_marker ev) B \<and>
                   new_events w w' =
                     (if clustered
                      then Invoke M_enter_maintenance_mode # A @
                           [Return M_enter_maintenance_mode True, Invoke M_check_and_shutdown_vms] @
                           B @ [Return M_check_and_shutdown_vms sd]
                      else Invoke M_check_and_shutdown_vms # B @
                           [Return M_check_and_shutdown_vms sd, Invoke M_enter_maintenance_mode] @
                           A @ [Return M_enter_maintenance_mode mm]))"
proof -
  have qm: "\<forall>v r v'. enter_maintenance_mode e h 0 v = (r, v') \<longrightarrow> quiet v v'"
    by (blast intro: quiet_enter_maintenance_mode)
  have qs: "\<forall>v r v'. check_and_shutdown_vms e c 180 v = (r, v') \<longrightarrow> quiet v v'"
    by (blast intro: quiet_check_and_shutdown_vms)
  show ?thesis
  proof (cases clustered)
  case True
  obtain mm w1 where c1: "call M_enter_maintenance_mode id (enter_maintenance_mode e h 0) w = (mm, w1)"
    by (cases "call M_enter_maintenance_mode id (enter_maintenance_mode e h 0) w")
  from call_shape[OF c1 qm] obtain v' where
    m: "enter_maintenance_mode e h 0 (mark (Invoke M_enter_maintenance_mode) w) = (mm, v')"
       "list_all (\<lambda>ev. \<not> is_marker ev) (new_events (mark (Invoke M_enter_maintenance_mode) w) v')"
       "new_events w w1 = Invoke M_enter_maintenance_mode #
          new_events (mark (Invoke M_enter_maintenance_mode) w) v' @ [Return M_enter_maintenance_mode mm]"
       "extends w w1"
    by auto
  show ?thesis
  proof (cases mm)
    case False
    with True s78 c1 have r: "res = Some Msg_maintenance_failed" "w' = w1"
      by (simp_all add: process_host_steps_7_8_def)
    show ?thesis
      apply (rule exI[of _ mm])
      apply (rule exI[of _ "mark (Invoke M_enter_maintenance_mode) w"])
      apply (rule exI[of _ v'])
      using m r True False apply simp
      done
  next
    case mmT: True
    obtain sd w2 where c2: "call M_check_and_shutdown_vms id (check_and_shutdown_vms e c 180) w1 = (sd, w2)"
      by (cases "call M_check_and_shutdown_vms id (check_and_shutdown_vms e c 180) w1")
    from call_shape[OF c2 qs] obtain u' where
      s: "check_and_shutdown_vms e c 180 (mark (Invoke M_check_and_shutdown_vms) w1) = (sd, u')"
         "list_all (\<lambda>ev. \<not> is_marker ev) (new_events (mark (Invoke M_check_and_shutdown_vms) w1) u')"
         "new_events w1 w2 = Invoke M_check_and_shutdown_vms #
            new_events (mark (Invoke M_check_and_shutdown_vms) w1) u' @ [Return M_check_and_shutdown_vms sd]"
         "extends w1 w2"
      by auto
    from True mmT s78 c1 c2 have r: "res = None" "w' = w2"
      by (simp_all add: process_host_steps_7_8_def)
    have ne: "new_events w w' = new_events w w1 @ new_events w1 w2"
      unfolding r by (rule new_events_trans[OF m(4) s(4)])
    have ex: "extends w w'" unfolding r by (rule extends_trans[OF m(4) s(4)])
    show ?thesis
      apply (rule exI[of _ mm])
      apply (rule exI[of _ "mark (Invoke M_enter_maintenance_mode) w"])
      apply (rule exI[of _ v'])
      apply (simp add: m(1,2) r(1) True mmT ex)
      apply (rule exI[of _ sd])
      apply (rule exI[of _ "mark (Invoke M_check_and_shutdown_vms) w1"])
      apply (rule exI[of _ u'])
      using s(1,2) apply (simp add: ne m(3) s(3) mmT)
      done
  qed
next
  case False
  obtain sd w1 where c2: "call M_check_and_shutdown_vms id (check_and_shutdown_vms e c 180) w = (sd, w1)"
    by (cases "call M_check_and_shutdown_vms id (check_and_shutdown_vms e c 180) w")
  from call_shape[OF c2 qs] obtain u' where
    s: "check_and_shutdown_vms e c 180 (mark (Invoke M_check_and_shutdown_vms) w) = (sd, u')"
       "list_all (\<lambda>ev. \<not> is_marker ev) (new_events (mark (Invoke M_check_and_shutdown_vms) w) u')"
       "new_events w w1 = Invoke M_check_and_shutdown_vms #
          new_events (mark (Invoke M_check_and_shutdown_vms) w) u' @ [Return M_check_and_shutdown_vms sd]"
       "extends w w1"
    by auto
  obtain mm w2 where c1: "call M_enter_maintenance_mode id (enter_maintenance_mode e h 0) w1 = (mm, w2)"
    by (cases "call M_enter_maintenance_mode id (enter_maintenance_mode e h 0) w1")
  from call_shape[OF c1 qm] obtain v' where
    m: "enter_maintenance_mode e h 0 (mark (Invoke M_enter_maintenance_mode) w1) = (mm, v')"
       "list_all (\<lambda>ev. \<not> is_marker ev) (new_events (mark (Invoke M_enter_maintenance_mode) w1) v')"
       "new_events w1 w2 = Invoke M_enter_maintenance_mode #
          new_events (mark (Invoke M_enter_maintenance_mode) w1) v' @ [Return M_enter_maintenance_mode mm]"
       "extends w1 w2"
    by auto
  from False s78 c1 c2 have r: "res = (if mm then None else Some Msg_maintenance_failed)" "w' = w2"
    by (auto simp: process_host_steps_7_8_def split: bool.splits)
  have ne: "new_events w w' = new_events w w1 @ new_events w1 w2"
    unfolding r by (rule new_events_trans[OF s(4) m(4)])
  have ex: "extends w w'" unfolding r by (rule extends_trans[OF s(4) m(4)])
  show ?thesis
    apply (rule exI[of _ mm])
    apply (rule exI[of _ "mark (Invoke M_enter_maintenance_mode) w1"])
    apply (rule exI[of _ v'])
    apply (simp add: m(1,2) r(1) False ex)
    apply (rule exI[of _ sd])
    apply (rule exI[of _ "mark (Invoke M_check_and_shutdown_vms) w"])
    apply (rule exI[of _ u'])
    using s(1,2) apply (simp add: ne m(3) s(3))
    done
  qed
qed

lemmas host_run_defs = process_host_steps_1_6_def process_host_steps_7_8_def
  refusing_cluster_env_def stuck_cluster_env_def

lemma steps_1_6_topology:
  assumes "process_host_steps_1_6 e p host w0 = (Inr (si, h, clustered, c, ds), l, w)"
  shows "\<exists>x x'. is_host_in_cluster e h x = (clustered, x')"
  using assms unfolding process_host_steps_1_6_def call_def Let_def
  by (auto split: prod.splits option.splits if_splits bool.splits)

section \<open>Properties\<close>

text \<open>
  C5. The install command is chosen from the ending of the patch file name alone: a name
  ending in \<^verbatim>\<open>.zip\<close> runs the package-archive install (\<^verbatim>\<open>vib install -d\<close>), \<^verbatim>\<open>.vib\<close> the
  single-component install (\<^verbatim>\<open>vib install -v\<close>), \<^verbatim>\<open>.iso\<close> the image-profile update
  (\<^verbatim>\<open>profile update -d\<close>), each as the only remote command and with the result "exit status
  0"; any other name, and no name, gives \<^verbatim>\<open>False\<close> and leaves the world untouched (no remote
  command, no other call).
\<close>

theorem install_strategy_by_extension:
  "(\<forall>n. patch_name p = Some n \<longrightarrow>
      (endswith n ''.zip'' \<longrightarrow>
         (\<exists>a. new_events w (snd (install_patch_via_ssh e p c ds w)) =
                 [SshCommand c (''esxcli software vib install -d '' @ [CHR 0x27] @ ds @ ''/'' @ n @ [CHR 0x27] @ '' --no-sig-check'') 1200 a] \<and>
               fst (install_patch_via_ssh e p c ds w) = ssh_ok a)) \<and>
      (endswith n ''.vib'' \<longrightarrow>
         (\<exists>a. new_events w (snd (install_patch_via_ssh e p c ds w)) =
                 [SshCommand c (''esxcli software vib install -v '' @ [CHR 0x27] @ ds @ ''/'' @ n @ [CHR 0x27] @ '' --no-sig-check'') 1200 a] \<and>
               fst (install_patch_via_ssh e p c ds w) = ssh_ok a)) \<and>
      (endswith n ''.iso'' \<longrightarrow>
         (\<exists>a. new_events w (snd (install_patch_via_ssh e p c ds w)) =
                 [SshCommand c (''esxcli software profile update -d '' @ [CHR 0x27] @ ds @ ''/'' @ n @ [CHR 0x27]) 1200 a] \<and>
               fst (install_patch_via_ssh e p c ds w) = ssh_ok a)) \<and>
      (\<not> endswith n ''.zip'' \<and> \<not> endswith n ''.vib'' \<and> \<not> endswith n ''.iso'' \<longrightarrow>
         install_patch_via_ssh e p c ds w = (False, w))) \<and>
   (patch_name p = None \<longrightarrow> install_patch_via_ssh e p c ds w = (False, w))"
proof (intro conjI allI impI)
  fix n assume n: "patch_name p = Some n" and z: "endswith n ''.zip''"
  have "install_cmd (ds @ ''/'' @ n) n = Some (''esxcli software vib install -d '' @ [CHR 0x27] @ (ds @ ''/'' @ n) @ [CHR 0x27] @ '' --no-sig-check'')"
    using z by (simp add: install_cmd_def)
  from install_run[OF n endswith_nonempty[OF z] this]
  show "\<exists>a. new_events w (snd (install_patch_via_ssh e p c ds w)) =
                 [SshCommand c (''esxcli software vib install -d '' @ [CHR 0x27] @ ds @ ''/'' @ n @ [CHR 0x27] @ '' --no-sig-check'') 1200 a] \<and>
               fst (install_patch_via_ssh e p c ds w) = ssh_ok a" by simp
next
  fix n assume n: "patch_name p = Some n" and z: "endswith n ''.vib''"
  have "\<not> endswith n ''.zip''" using endswith_same_length[OF z, of "''.zip''"] by auto
  then have "install_cmd (ds @ ''/'' @ n) n = Some (''esxcli software vib install -v '' @ [CHR 0x27] @ (ds @ ''/'' @ n) @ [CHR 0x27] @ '' --no-sig-check'')"
    using z by (simp add: install_cmd_def)
  from install_run[OF n endswith_nonempty[OF z] this]
  show "\<exists>a. new_events w (snd (install_patch_via_ssh e p c ds w)) =
                 [SshCommand c (''esxcli software vib install -v '' @ [CHR 0x27] @ ds @ ''/'' @ n @ [CHR 0x27] @ '' --no-sig-check'') 1200 a] \<and>
               fst (install_patch_via_ssh e p c ds w) = ssh_ok a" by simp
next
  fix n assume n: "patch_name p = Some n" and z: "endswith n ''.iso''"
  have "\<not> endswith n ''.zip''" using endswith_same_length[OF z, of "''.zip''"] by auto
  moreover have "\<not> endswith n ''.vib''" using endswith_same_length[OF z, of "''.vib''"] by auto
  ultimately have "install_cmd (ds @ ''/'' @ n) n = Some (''esxcli software profile update -d '' @ [CHR 0x27] @ (ds @ ''/'' @ n) @ [CHR 0x27])"
    using z by (simp add: install_cmd_def)
  from install_run[OF n endswith_nonempty[OF z] this]
  show "\<exists>a. new_events w (snd (install_patch_via_ssh e p c ds w)) =
                 [SshCommand c (''esxcli software profile update -d '' @ [CHR 0x27] @ ds @ ''/'' @ n @ [CHR 0x27]) 1200 a] \<and>
               fst (install_patch_via_ssh e p c ds w) = ssh_ok a" by simp
next
  fix n assume n: "patch_name p = Some n"
    and z: "\<not> endswith n ''.zip'' \<and> \<not> endswith n ''.vib'' \<and> \<not> endswith n ''.iso''"
  then have "install_cmd (ds @ ''/'' @ n) n = None" by (simp add: install_cmd_def)
  from install_none[OF n this] show "install_patch_via_ssh e p c ds w = (False, w)" .
next
  assume "patch_name p = None"
  then show "install_patch_via_ssh e p c ds w = (False, w)"
    by (simp add: install_patch_via_ssh_def truthy_str_def)
qed

theorem install_strategy_by_extension_witness:
  "endswith ''p.zip'' ''.zip'' \<and>
   new_events world0 (snd (install_patch_via_ssh calm_env patcher1 2 ''/vmfs/volumes/ds1'' world0)) =
     [SshCommand 2 (''esxcli software vib install -d '' @ [CHR 0x27] @ ''/vmfs/volumes/ds1/p.zip''
        @ [CHR 0x27] @ '' --no-sig-check'') 1200 (Exited 0 [] [])] \<and>
   fst (install_patch_via_ssh calm_env patcher1 2 ''/vmfs/volumes/ds1'' world0) \<and>
   \<not> endswith ''p.txt'' ''.zip'' \<and> \<not> endswith ''p.txt'' ''.vib'' \<and> \<not> endswith ''p.txt'' ''.iso'' \<and>
   install_patch_via_ssh calm_env (patcher1\<lparr>patch_name := Some ''p.txt''\<rparr>) 2 ''/vmfs/volumes/ds1'' world0 =
     (False, world0)"
  using install_strategy_by_extension[of patcher1 world0 calm_env 2 "''/vmfs/volumes/ds1''"]
    install_strategy_by_extension[of "patcher1\<lparr>patch_name := Some ''p.txt''\<rparr>" world0 calm_env 2
      "''/vmfs/volumes/ds1''"]
  by (simp add: string_defs prim_defs op_defs vocab_defs calm_defs Let_def)

text \<open>
  C6. The upload returns \<^verbatim>\<open>True\<close> only when the size reported by the remote \<^verbatim>\<open>stat\<close> after
  the transfer equals the local file size; whenever the two reported sizes differ, by any
  amount, it returns \<^verbatim>\<open>False\<close>.
\<close>

theorem upload_integrity:
  assumes r: "copy_patch_via_scp e p c host ds w = (ok, w')"
  shows "(ok \<longrightarrow>
            (\<exists>pf sz. patch_file p = Some pf \<and>
               SftpStat (ds @ ''/'' @ fmt_opt (patch_name p)) (Ok sz) \<in> set (new_events w w') \<and>
               GetSize pf (Ok sz) \<in> set (new_events w w'))) \<and>
         (\<forall>pf rs ls. patch_file p = Some pf \<and>
               SftpStat (ds @ ''/'' @ fmt_opt (patch_name p)) (Ok rs) \<in> set (new_events w w') \<and>
               GetSize pf (Ok ls) \<in> set (new_events w w') \<and> rs \<noteq> ls \<longrightarrow> \<not> ok)"
proof (intro conjI impI allI)
  assume ok
  with r have "copy_patch_via_scp e p c host ds w = (True, w')" by simp
  from copy_true[OF this] obtain pf a sz where
    "patch_file p = Some pf" and ev: "new_events w w' =
           [PathExists pf True, SftpOpen c (Ok ()), SftpStat ds (Ok a),
            SftpPut pf (ds @ ''/'' @ fmt_opt (patch_name p)) (Ok ()),
            SftpStat (ds @ ''/'' @ fmt_opt (patch_name p)) (Ok sz), GetSize pf (Ok sz),
            SftpClose (Ok ())]" by blast
  then show "\<exists>pf sz. patch_file p = Some pf \<and>
               SftpStat (ds @ ''/'' @ fmt_opt (patch_name p)) (Ok sz) \<in> set (new_events w w') \<and>
               GetSize pf (Ok sz) \<in> set (new_events w w')"
    by (intro exI[of _ pf] exI[of _ sz]) simp
next
  fix pf rs ls
  assume h: "patch_file p = Some pf \<and>
               SftpStat (ds @ ''/'' @ fmt_opt (patch_name p)) (Ok rs) \<in> set (new_events w w') \<and>
               GetSize pf (Ok ls) \<in> set (new_events w w') \<and> rs \<noteq> ls"
  from copy_shape[OF r, of pf rs ls] h show "\<not> ok" by blast
qed

theorem upload_integrity_witness:
  "fst (copy_patch_via_scp calm_env patcher1 2 host1 ''/vmfs/volumes/ds1'' world0) \<and>
   (\<exists>pf sz. patch_file patcher1 = Some pf \<and>
      SftpStat (''/vmfs/volumes/ds1'' @ ''/'' @ fmt_opt (patch_name patcher1)) (Ok sz)
        \<in> set (new_events world0 (snd (copy_patch_via_scp calm_env patcher1 2 host1 ''/vmfs/volumes/ds1'' world0))) \<and>
      GetSize pf (Ok sz)
        \<in> set (new_events world0 (snd (copy_patch_via_scp calm_env patcher1 2 host1 ''/vmfs/volumes/ds1'' world0)))) \<and>
   SftpStat (''/vmfs/volumes/ds1'' @ ''/'' @ fmt_opt (patch_name patcher1)) (Ok 1000)
     \<in> set (new_events world0 (snd (copy_patch_via_scp short_upload_env patcher1 2 host1 ''/vmfs/volumes/ds1'' world0))) \<and>
   GetSize ''/tmp/p.zip'' (Ok 1001)
     \<in> set (new_events world0 (snd (copy_patch_via_scp short_upload_env patcher1 2 host1 ''/vmfs/volumes/ds1'' world0))) \<and>
   \<not> fst (copy_patch_via_scp short_upload_env patcher1 2 host1 ''/vmfs/volumes/ds1'' world0)"
proof -
  have ok: "fst (copy_patch_via_scp calm_env patcher1 2 host1 ''/vmfs/volumes/ds1'' world0)"
    by (simp add: string_defs prim_defs op_defs calm_defs Let_def)
  have pf: "patch_file patcher1 = Some ''/tmp/p.zip''"
    by (simp add: patcher1_def)
  have st: "SftpStat (''/vmfs/volumes/ds1'' @ ''/'' @ fmt_opt (patch_name patcher1)) (Ok 1000)
     \<in> set (new_events world0 (snd (copy_patch_via_scp short_upload_env patcher1 2 host1 ''/vmfs/volumes/ds1'' world0)))"
    by (simp add: string_defs prim_defs op_defs calm_defs Let_def)
  have gs: "GetSize ''/tmp/p.zip'' (Ok 1001)
     \<in> set (new_events world0 (snd (copy_patch_via_scp short_upload_env patcher1 2 host1 ''/vmfs/volumes/ds1'' world0)))"
    by (simp add: string_defs prim_defs op_defs calm_defs Let_def)
  have ne: "(1000::int) \<noteq> 1001" by simp
  note a = upload_integrity[OF prod.collapse[symmetric], of calm_env patcher1 2 host1 "''/vmfs/volumes/ds1''" world0]
  note b = upload_integrity[OF prod.collapse[symmetric], of short_upload_env patcher1 2 host1 "''/vmfs/volumes/ds1''" world0]
  from a ok have c1: "\<exists>pf sz. patch_file patcher1 = Some pf \<and>
      SftpStat (''/vmfs/volumes/ds1'' @ ''/'' @ fmt_opt (patch_name patcher1)) (Ok sz)
        \<in> set (new_events world0 (snd (copy_patch_via_scp calm_env patcher1 2 host1 ''/vmfs/volumes/ds1'' world0))) \<and>
      GetSize pf (Ok sz)
        \<in> set (new_events world0 (snd (copy_patch_via_scp calm_env patcher1 2 host1 ''/vmfs/volumes/ds1'' world0)))"
    by (elim conjE impE) assumption+
  from b pf st gs ne
  have c2: "\<not> fst (copy_patch_via_scp short_upload_env patcher1 2 host1 ''/vmfs/volumes/ds1'' world0)"
    by blast
  from ok c1 st gs c2 show ?thesis by (intro conjI)
qed

text \<open>
  C7. When the host already reports being in maintenance mode, \<^verbatim>\<open>enter_maintenance_mode\<close>
  returns \<^verbatim>\<open>True\<close> and does nothing but read that flag (no transition is requested);
  likewise \<^verbatim>\<open>exit_maintenance_mode\<close> when the host reports being out of it. Hence a second
  call after a successful first one, on a host that then reports the target state, returns
  the same \<^verbatim>\<open>True\<close> and requests no transition.
\<close>

theorem maintenance_mode_idempotent:
  "(fst (read_in_maintenance_mode e w h) = Ok True \<longrightarrow>
      fst (enter_maintenance_mode e h tmo w) \<and>
      new_events w (snd (enter_maintenance_mode e h tmo w)) = [ReadInMaintenanceMode h (Ok True)]) \<and>
   (fst (read_in_maintenance_mode e w h) = Ok False \<longrightarrow>
      fst (exit_maintenance_mode e h w) \<and>
      new_events w (snd (exit_maintenance_mode e h w)) = [ReadInMaintenanceMode h (Ok False)]) \<and>
   (fst (enter_maintenance_mode e h tmo w) \<and>
    fst (read_in_maintenance_mode e (snd (enter_maintenance_mode e h tmo w)) h) = Ok True \<longrightarrow>
      fst (enter_maintenance_mode e h tmo (snd (enter_maintenance_mode e h tmo w))) \<and>
      new_events (snd (enter_maintenance_mode e h tmo w))
        (snd (enter_maintenance_mode e h tmo (snd (enter_maintenance_mode e h tmo w)))) =
        [ReadInMaintenanceMode h (Ok True)]) \<and>
   (fst (exit_maintenance_mode e h w) \<and>
    fst (read_in_maintenance_mode e (snd (exit_maintenance_mode e h w)) h) = Ok False \<longrightarrow>
      fst (exit_maintenance_mode e h (snd (exit_maintenance_mode e h w))) \<and>
      new_events (snd (exit_maintenance_mode e h w))
        (snd (exit_maintenance_mode e h (snd (exit_maintenance_mode e h w)))) =
        [ReadInMaintenanceMode h (Ok False)])"
proof -
  have enter: "fst (enter_maintenance_mode e h tmo v) \<and>
      new_events v (snd (enter_maintenance_mode e h tmo v)) = [ReadInMaintenanceMode h (Ok True)]"
    if rd: "fst (read_in_maintenance_mode e v h) = Ok True" for v
  proof -
    obtain v1 where r: "perform (\<lambda>w. read_in_maintenance_mode e w h) (ReadInMaintenanceMode h) v = (Ok True, v1)"
      using rd by (cases "read_in_maintenance_mode e v h") (simp add: perform_def)
    have "enter_maintenance_mode e h tmo v = (True, v1)"
      by (simp add: enter_maintenance_mode_def r)
    with perform_facts[OF r] show ?thesis by (simp add: new_events_def)
  qed
  have exit: "fst (exit_maintenance_mode e h v) \<and>
      new_events v (snd (exit_maintenance_mode e h v)) = [ReadInMaintenanceMode h (Ok False)]"
    if rd: "fst (read_in_maintenance_mode e v h) = Ok False" for v
  proof -
    obtain v1 where r: "perform (\<lambda>w. read_in_maintenance_mode e w h) (ReadInMaintenanceMode h) v = (Ok False, v1)"
      using rd by (cases "read_in_maintenance_mode e v h") (simp add: perform_def)
    have "exit_maintenance_mode e h v = (True, v1)"
      by (simp add: exit_maintenance_mode_def r)
    with perform_facts[OF r] show ?thesis by (simp add: new_events_def)
  qed
  have c1: "fst (read_in_maintenance_mode e w h) = Ok True \<longrightarrow>
      fst (enter_maintenance_mode e h tmo w) \<and>
      new_events w (snd (enter_maintenance_mode e h tmo w)) = [ReadInMaintenanceMode h (Ok True)]"
    using enter[of w] by (rule impI)
  have c2: "fst (read_in_maintenance_mode e w h) = Ok False \<longrightarrow>
      fst (exit_maintenance_mode e h w) \<and>
      new_events w (snd (exit_maintenance_mode e h w)) = [ReadInMaintenanceMode h (Ok False)]"
    using exit[of w] by (rule impI)
  have c3: "fst (enter_maintenance_mode e h tmo w) \<and>
    fst (read_in_maintenance_mode e (snd (enter_maintenance_mode e h tmo w)) h) = Ok True \<longrightarrow>
      fst (enter_maintenance_mode e h tmo (snd (enter_maintenance_mode e h tmo w))) \<and>
      new_events (snd (enter_maintenance_mode e h tmo w))
        (snd (enter_maintenance_mode e h tmo (snd (enter_maintenance_mode e h tmo w)))) =
        [ReadInMaintenanceMode h (Ok True)]"
    using enter[of "snd (enter_maintenance_mode e h tmo w)"] by (intro impI) (elim conjE)
  have c4: "fst (exit_maintenance_mode e h w) \<and>
    fst (read_in_maintenance_mode e (snd (exit_maintenance_mode e h w)) h) = Ok False \<longrightarrow>
      fst (exit_maintenance_mode e h (snd (exit_maintenance_mode e h w))) \<and>
      new_events (snd (exit_maintenance_mode e h w))
        (snd (exit_maintenance_mode e h (snd (exit_maintenance_mode e h w)))) =
        [ReadInMaintenanceMode h (Ok False)]"
    using exit[of "snd (exit_maintenance_mode e h w)"] by (intro impI) (elim conjE)
  from c1 c2 c3 c4 show ?thesis by (intro conjI)
qed

theorem maintenance_mode_idempotent_witness:
  "fst (enter_maintenance_mode calm_env 7 0 world0) \<and>
   fst (read_in_maintenance_mode calm_env (snd (enter_maintenance_mode calm_env 7 0 world0)) 7) = Ok True \<and>
   fst (enter_maintenance_mode calm_env 7 0 (snd (enter_maintenance_mode calm_env 7 0 world0))) \<and>
   new_events (snd (enter_maintenance_mode calm_env 7 0 world0))
     (snd (enter_maintenance_mode calm_env 7 0 (snd (enter_maintenance_mode calm_env 7 0 world0)))) =
     [ReadInMaintenanceMode 7 (Ok True)] \<and>
   fst (exit_maintenance_mode calm_env 7 world0) \<and>
   fst (read_in_maintenance_mode calm_env (snd (exit_maintenance_mode calm_env 7 world0)) 7) = Ok False \<and>
   fst (exit_maintenance_mode calm_env 7 (snd (exit_maintenance_mode calm_env 7 world0))) \<and>
   new_events (snd (exit_maintenance_mode calm_env 7 world0))
     (snd (exit_maintenance_mode calm_env 7 (snd (exit_maintenance_mode calm_env 7 world0)))) =
     [ReadInMaintenanceMode 7 (Ok False)]"
  using maintenance_mode_idempotent[of calm_env world0 7 0]
    maintenance_mode_idempotent[of calm_env "snd (enter_maintenance_mode calm_env 7 0 world0)" 7 0]
  by (simp add: string_defs prim_defs op_defs vocab_defs calm_defs Let_def)

text \<open>
  C10. When the first power-state query of a workload fails, the shutdown sequence sends
  \<^verbatim>\<open>power.off\<close> at once (the events of this workload are the failed query and the forced
  command, with no \<^verbatim>\<open>power.shutdown\<close> and no sleep between them), and the workload id joins
  \<^verbatim>\<open>failed_vms\<close> exactly when that forced command fails. Nothing is known about the real
  power state, so a workload that is already off can receive the forced command.
\<close>

theorem unreadable_state_forces_power_off:
  assumes q: "ssh_execute e c (getstate_cmd vm) w = ((False, out), w1)"
  shows "\<exists>a1 a2.
           drop (length (trace w)) (trace (snd (shutdown_vm e c T vm (failed, w)))) =
             [(clock w, SshCommand c (getstate_cmd vm) 60 a1),
              (clock w1, SshCommand c (poweroff_cmd vm) 60 a2)] \<and>
           \<not> fst (ssh_result a1) \<and>
           fst (shutdown_vm e c T vm (failed, w)) =
             (if fst (ssh_result a2) then failed else failed @ [vm])"
proof -
  obtain r2 w2 where p: "ssh_execute e c (poweroff_cmd vm) w1 = (r2, w2)"
    by (cases "ssh_execute e c (poweroff_cmd vm) w1") auto
  from ssh_execute_facts[OF q] obtain a1 where
    a1: "(False, out) = ssh_result a1" "trace w1 = trace w @ [(clock w, SshCommand c (getstate_cmd vm) 60 a1)]"
    by blast
  from ssh_execute_facts[OF p] obtain a2 where
    a2: "r2 = ssh_result a2" "trace w2 = trace w1 @ [(clock w1, SshCommand c (poweroff_cmd vm) 60 a2)]"
    by blast
  obtain ok2 out2 where r2: "r2 = (ok2, out2)" by (cases r2)
  have run: "shutdown_vm e c T vm (failed, w) = (if ok2 then failed else failed @ [vm], w2)"
    unfolding shutdown_vm_def by (simp add: q p r2)
  have n1: "\<not> fst (ssh_result a1)" using a1(1)[symmetric] by simp
  have f2: "fst (ssh_result a2) = ok2" using a2(1)[symmetric] r2 by simp
  show ?thesis
    apply (rule exI[of _ a1])
    apply (rule exI[of _ a2])
    apply (simp add: run a1(2) a2(2) n1 f2)
    done
qed

theorem unreadable_state_forces_power_off_witness:
  "fst (fst (ssh_execute deaf_env 2 (getstate_cmd ''1'') world0)) = False \<and>
   drop (length (trace world0)) (trace (snd (shutdown_vm deaf_env 2 180 ''1'' ([], world0)))) =
     [(0, SshCommand 2 (getstate_cmd ''1'') 60 (Exited 1 [] ''error'')),
      (1, SshCommand 2 (poweroff_cmd ''1'') 60 (Exited 1 [] ''error''))] \<and>
   fst (shutdown_vm deaf_env 2 180 ''1'' ([], world0)) = [''1'']"
proof -
  have q: "ssh_execute deaf_env 2 (getstate_cmd ''1'') world0 =
             ((False, ''error''), snd (ssh_execute deaf_env 2 (getstate_cmd ''1'') world0))"
    by (simp add: string_defs prim_defs op_defs vocab_defs calm_defs Let_def)
  from unreadable_state_forces_power_off[OF q, of 180 "[]"] show ?thesis
    by (simp add: string_defs prim_defs op_defs vocab_defs calm_defs Let_def)
qed


text \<open>
  C4 (the code at the failing input). For a host configured with remote-shell port 2222 and
  management-API port 8443, \<^verbatim>\<open>wait_for_host_reboot\<close> returns \<^verbatim>\<open>True\<close> after probing the literal
  ports 22 and 443 only: neither of the host's own ports is ever observed. The sibling
  \<^verbatim>\<open>wait_for_ssh\<close> probes \<^verbatim>\<open>host.ssh_port\<close>.
\<close>

theorem reboot_wait_ignores_configured_ports:
  "ssh_port host2 = 2222 \<and> api_port host2 = 8443 \<and>
   fst (wait_for_host_reboot reboot_env host2 600 (mark (Invoke M_wait_for_host_reboot) world0)) = True \<and>
   new_events (mark (Invoke M_wait_for_host_reboot) world0)
     (snd (wait_for_host_reboot reboot_env host2 600 (mark (Invoke M_wait_for_host_reboot) world0))) =
     [TcpProbe ''10.0.0.2'' 22 (Ok 111), TcpProbe ''10.0.0.2'' 22 (Ok 0), Sleep 15,
      TcpProbe ''10.0.0.2'' 443 (Ok 0), Sleep 25]"
  by (simp add: string_defs prim_defs op_defs calm_defs)

text \<open>
  C2 (as amended). A workload that was found powered on gets the graceful-shutdown command
  and is then handled by the wait loop. The loop runs in rounds: while the time elapsed since
  the graceful-shutdown command returned, read at the loop test, is below \<open>T\<close>, it sleeps 5
  seconds and polls the power state at once; the first round begins when that command
  returns, there is a round whenever \<open>0 < T\<close>, and a poll that observes Off ends the loop.
  Every poll of the loop therefore starts less than \<open>T + 5\<close> after the command, and the last
  one can fall after \<open>T\<close>. If one of the loop's polls observes Off, no forced power-off
  command is sent to the workload and nothing else is done for it. If none of them does,
  exactly one forced power-off command is sent, and not before \<open>T\<close> has elapsed.
\<close>

theorem graceful_then_forced:
  assumes q: "ssh_execute e c (getstate_cmd vm) w = ((True, st0), w1)"
    and on: "py_in ''Powered on'' st0"
    and sd: "ssh_execute e c (shutdown_cmd vm) w1 = (r2, w2)"
    and run: "shutdown_vm e c T vm (failed, w) = (failed', w')"
  shows "let tail = drop (length (trace w2)) (trace w');
             loop = takeWhile (\<lambda>x. \<not> is_poweroff c vm (snd x)) tail;
             forced = filter (\<lambda>x. is_poweroff c vm (snd x)) (drop (length (trace w)) (trace w'))
         in wait_rounds c vm (clock w2) T loop \<and>
            (0 < T \<longrightarrow> loop \<noteq> []) \<and>
            list_all (\<lambda>x. fst x = clock w2) (take 1 loop) \<and>
            list_all (\<lambda>x. fst x - clock w2 < T + 5) (filter (\<lambda>x. is_poll c vm (snd x)) loop) \<and>
            (list_ex (\<lambda>x. poll_off c vm (snd x)) loop \<longrightarrow> forced = [] \<and> tail = loop) \<and>
            (\<not> list_ex (\<lambda>x. poll_off c vm (snd x)) loop \<longrightarrow>
               (\<exists>t a. forced = [(t, SshCommand c (poweroff_cmd vm) 60 a)] \<and> T \<le> t - clock w2 \<and>
                      (t, SshCommand c (poweroff_cmd vm) 60 a) \<in> set tail))"
proof -
  from ssh_execute_facts[OF q] obtain a0 where
    t1: "trace w1 = trace w @ [(clock w, SshCommand c (getstate_cmd vm) 60 a0)]" by blast
  from ssh_execute_facts[OF sd] obtain a2 where
    t2: "trace w2 = trace w1 @ [(clock w1, SshCommand c (shutdown_cmd vm) 60 a2)]" by blast
  obtain b w3 where g: "graceful_wait e c vm (clock w2) T w2 = (b, w3)"
    by (cases "graceful_wait e c vm (clock w2) T w2")
  from graceful_wait_spec[OF g] obtain tr where
    t3: "trace w3 = trace w2 @ tr"
    and rounds: "wait_rounds c vm (clock w2) T tr"
    and b: "b \<longleftrightarrow> list_ex (\<lambda>x. poll_off c vm (snd x)) tr"
    and late: "\<not> b \<longrightarrow> T \<le> clock w3 - clock w2"
    and ne: "clock w2 - clock w2 < T \<longrightarrow> tr \<noteq> []"
    and first: "list_all (\<lambda>x. fst x = clock w2) (take 1 tr)" by blast
  note sf = wait_segment_facts[OF wait_rounds_segment[OF rounds]]
  have tw: "takeWhile (\<lambda>x. \<not> is_poweroff c vm (snd x)) tr = tr"
    using sf(1) by (simp add: takeWhile_eq_all_conv list_all_iff)
  have ne': "0 < T \<longrightarrow> tr \<noteq> []" using ne by simp
  show ?thesis
  proof (cases b)
    case True
    with q on sd g run have "w' = w3"
      by (simp add: shutdown_vm_def)
    with t1 t2 t3 sf b True rounds ne' first show ?thesis
      by (simp add: Let_def tw)
  next
    case False
    obtain ok_force o4 w4 where p: "ssh_execute e c (poweroff_cmd vm) w3 = ((ok_force, o4), w4)"
      by (cases "ssh_execute e c (poweroff_cmd vm) w3") auto
    from ssh_execute_facts[OF p] obtain a4 where
      t4: "trace w4 = trace w3 @ [(clock w3, SshCommand c (poweroff_cmd vm) 60 a4)]" by blast
    have tw4: "takeWhile (\<lambda>x. \<not> is_poweroff c vm (snd x))
                 (tr @ (clock w3, SshCommand c (poweroff_cmd vm) 60 a4) # rest) = tr" for rest
      using sf(1) by (simp add: takeWhile_tail tw)
    from late False have late': "T \<le> clock w3 - clock w2" by simp
    show ?thesis
    proof (cases ok_force)
      case False
      with \<open>\<not> b\<close> q on sd g p run have "w' = w4"
        by (simp add: shutdown_vm_def)
      with t1 t2 t3 t4 sf b \<open>\<not> b\<close> rounds ne' first late' show ?thesis
        by (simp add: Let_def tw4)
    next
      case True
      obtain r5 w5 where c5: "ssh_execute e c (getstate_cmd vm) (sleep 5 w4) = (r5, w5)"
        by (cases "ssh_execute e c (getstate_cmd vm) (sleep 5 w4)")
      from ssh_execute_facts[OF c5] obtain a5 where
        t5: "trace w5 = trace (sleep 5 w4) @ [(clock (sleep 5 w4), SshCommand c (getstate_cmd vm) 60 a5)]"
        by blast
      from True \<open>\<not> b\<close> q on sd g p c5 run have "w' = w5"
        by (cases r5) (simp add: shutdown_vm_def)
      with t1 t2 t3 t4 t5 sf b \<open>\<not> b\<close> rounds ne' first late' show ?thesis
        by (simp add: Let_def trace_sleep tw4)
    qed
  qed
qed

theorem graceful_then_forced_witness:
  "(let w1 = snd (ssh_execute slow_off_env 2 (getstate_cmd ''1'') world0);
        w2 = snd (ssh_execute slow_off_env 2 (shutdown_cmd ''1'') w1);
        w' = snd (shutdown_vm slow_off_env 2 180 ''1'' ([], world0));
        tail = drop (length (trace w2)) (trace w');
        loop = takeWhile (\<lambda>x. \<not> is_poweroff 2 ''1'' (snd x)) tail;
        forced = filter (\<lambda>x. is_poweroff 2 ''1'' (snd x)) (drop (length (trace world0)) (trace w'))
    in fst (ssh_execute slow_off_env 2 (getstate_cmd ''1'') world0) = (True, ''Powered on'') \<and>
       py_in ''Powered on'' ''Powered on'' \<and>
       trace w' =
         [(0, SshCommand 2 (getstate_cmd ''1'') 60 (Exited 0 ''Powered on'' [])),
          (0, SshCommand 2 (shutdown_cmd ''1'') 60 (Exited 0 [] [])),
          (0, Sleep 5), (5, SshCommand 2 (getstate_cmd ''1'') 60 (Exited 0 ''Powered on'' [])),
          (5, Sleep 5), (10, SshCommand 2 (getstate_cmd ''1'') 60 (Exited 0 ''Powered off'' []))] \<and>
       list_ex (\<lambda>x. poll_off 2 ''1'' (snd x)) loop \<and>
       wait_rounds 2 ''1'' (clock w2) 180 loop \<and> forced = [] \<and> tail = loop) \<and>
   (let w1 = snd (ssh_execute hung_env 2 (getstate_cmd ''1'') world0);
        w2 = snd (ssh_execute hung_env 2 (shutdown_cmd ''1'') w1);
        w' = snd (shutdown_vm hung_env 2 12 ''1'' ([], world0));
        tail = drop (length (trace w2)) (trace w');
        loop = takeWhile (\<lambda>x. \<not> is_poweroff 2 ''1'' (snd x)) tail;
        forced = filter (\<lambda>x. is_poweroff 2 ''1'' (snd x)) (drop (length (trace world0)) (trace w'))
    in fst (ssh_execute hung_env 2 (getstate_cmd ''1'') world0) = (True, ''Powered on'') \<and>
       trace w' =
         [(0, SshCommand 2 (getstate_cmd ''1'') 60 (Exited 0 ''Powered on'' [])),
          (0, SshCommand 2 (shutdown_cmd ''1'') 60 (Exited 0 [] [])),
          (0, Sleep 5), (5, SshCommand 2 (getstate_cmd ''1'') 60 (Exited 0 ''Powered on'' [])),
          (5, Sleep 5), (10, SshCommand 2 (getstate_cmd ''1'') 60 (Exited 0 ''Powered on'' [])),
          (10, Sleep 5), (15, SshCommand 2 (getstate_cmd ''1'') 60 (Exited 0 ''Powered on'' [])),
          (15, SshCommand 2 (poweroff_cmd ''1'') 60 (Exited 0 [] [])),
          (15, Sleep 5), (20, SshCommand 2 (getstate_cmd ''1'') 60 (Exited 0 ''Powered on'' []))] \<and>
       \<not> list_ex (\<lambda>x. poll_off 2 ''1'' (snd x)) loop \<and>
       wait_rounds 2 ''1'' (clock w2) 12 loop \<and>
       (\<exists>t a. forced = [(t, SshCommand 2 (poweroff_cmd ''1'') 60 a)] \<and> 12 \<le> t - clock w2 \<and>
              (t, SshCommand 2 (poweroff_cmd ''1'') 60 a) \<in> set tail))"
proof -
  have on: "py_in ''Powered on'' ''Powered on''" by simp
  have q1: "ssh_execute slow_off_env 2 (getstate_cmd ''1'') world0 =
      ((True, ''Powered on''), snd (ssh_execute slow_off_env 2 (getstate_cmd ''1'') world0))"
    by (simp add: string_defs prim_defs op_defs calm_defs)
  have tr1: "trace (snd (shutdown_vm slow_off_env 2 180 ''1'' ([], world0))) =
         [(0, SshCommand 2 (getstate_cmd ''1'') 60 (Exited 0 ''Powered on'' [])),
          (0, SshCommand 2 (shutdown_cmd ''1'') 60 (Exited 0 [] [])),
          (0, Sleep 5), (5, SshCommand 2 (getstate_cmd ''1'') 60 (Exited 0 ''Powered on'' [])),
          (5, Sleep 5), (10, SshCommand 2 (getstate_cmd ''1'') 60 (Exited 0 ''Powered off'' []))]"
    by (simp add: string_defs prim_defs op_defs calm_defs)
  have h1: "list_ex (\<lambda>x. poll_off 2 ''1'' (snd x))
      (takeWhile (\<lambda>x. \<not> is_poweroff 2 ''1'' (snd x))
          (drop (length (trace (snd (ssh_execute slow_off_env 2 (shutdown_cmd ''1'')
                   (snd (ssh_execute slow_off_env 2 (getstate_cmd ''1'') world0))))))
             (trace (snd (shutdown_vm slow_off_env 2 180 ''1'' ([], world0))))))"
    by (simp add: string_defs prim_defs op_defs vocab_defs calm_defs)
  have q2: "ssh_execute hung_env 2 (getstate_cmd ''1'') world0 =
      ((True, ''Powered on''), snd (ssh_execute hung_env 2 (getstate_cmd ''1'') world0))"
    by (simp add: string_defs prim_defs op_defs calm_defs)
  have tr2: "trace (snd (shutdown_vm hung_env 2 12 ''1'' ([], world0))) =
         [(0, SshCommand 2 (getstate_cmd ''1'') 60 (Exited 0 ''Powered on'' [])),
          (0, SshCommand 2 (shutdown_cmd ''1'') 60 (Exited 0 [] [])),
          (0, Sleep 5), (5, SshCommand 2 (getstate_cmd ''1'') 60 (Exited 0 ''Powered on'' [])),
          (5, Sleep 5), (10, SshCommand 2 (getstate_cmd ''1'') 60 (Exited 0 ''Powered on'' [])),
          (10, Sleep 5), (15, SshCommand 2 (getstate_cmd ''1'') 60 (Exited 0 ''Powered on'' [])),
          (15, SshCommand 2 (poweroff_cmd ''1'') 60 (Exited 0 [] [])),
          (15, Sleep 5), (20, SshCommand 2 (getstate_cmd ''1'') 60 (Exited 0 ''Powered on'' []))]"
    by (simp add: string_defs prim_defs op_defs calm_defs)
  have h2: "\<not> list_ex (\<lambda>x. poll_off 2 ''1'' (snd x))
      (takeWhile (\<lambda>x. \<not> is_poweroff 2 ''1'' (snd x))
          (drop (length (trace (snd (ssh_execute hung_env 2 (shutdown_cmd ''1'')
                   (snd (ssh_execute hung_env 2 (getstate_cmd ''1'') world0))))))
             (trace (snd (shutdown_vm hung_env 2 12 ''1'' ([], world0))))))"
    by (simp add: string_defs prim_defs op_defs vocab_defs calm_defs)
  note a = graceful_then_forced[OF q1 on prod.collapse[symmetric] prod.collapse[symmetric],
      of 180 "[]", unfolded Let_def]
  note b = graceful_then_forced[OF q2 on prod.collapse[symmetric] prod.collapse[symmetric],
      of 12 "[]", unfolded Let_def]
  have f1: "fst (ssh_execute slow_off_env 2 (getstate_cmd ''1'') world0) = (True, ''Powered on'')"
    using q1 by (metis fst_conv)
  have f2: "fst (ssh_execute hung_env 2 (getstate_cmd ''1'') world0) = (True, ''Powered on'')"
    using q2 by (metis fst_conv)
  show ?thesis
    unfolding Let_def
    apply (intro conjI)
                apply (rule f1)
               apply (rule on)
              apply (rule tr1)
             apply (rule h1)
            apply (rule a[THEN conjunct1])
    using a h1 apply blast
    using a h1 apply blast
         apply (rule f2)
        apply (rule tr2)
       apply (rule h2)
      apply (rule b[THEN conjunct1])
    using b h2 apply blast
    done
qed

theorem graceful_then_forced_counterexample:
  "drop (length (trace world0)) (trace (snd (shutdown_vm late_off_env 2 3 ''1'' ([], world0)))) =
     [(0, SshCommand 2 (getstate_cmd ''1'') 60 (Exited 0 ''Powered on'' [])),
      (0, SshCommand 2 (shutdown_cmd ''1'') 60 (Exited 0 [] [])),
      (0, Sleep 5),
      (5, SshCommand 2 (getstate_cmd ''1'') 60 (Exited 0 ''Powered off'' []))] \<and>
   clock (snd (ssh_execute late_off_env 2 (shutdown_cmd ''1'')
            (snd (ssh_execute late_off_env 2 (getstate_cmd ''1'') world0)))) = 0 \<and>
   \<not> list_ex (\<lambda>x. is_poll 2 ''1'' (snd x) \<and> fst x - 0 \<le> 3 \<and> poll_off 2 ''1'' (snd x))
       (drop 2 (trace (snd (shutdown_vm late_off_env 2 3 ''1'' ([], world0))))) \<and>
   length (filter (is_poweroff 2 ''1'')
       (new_events world0 (snd (shutdown_vm late_off_env 2 3 ''1'' ([], world0))))) \<noteq> 1"
  by (simp add: string_defs prim_defs op_defs vocab_defs calm_defs)

text \<open>
  C9 (as amended). \<^verbatim>\<open>start_vms_after_reboot\<close> lists the workloads. When the listing fails or
  is empty it does nothing more. Otherwise it goes through every id of the listing answer, in
  order: each id gets one state query, and a power-on command follows only when that query
  succeeded and reports \<^verbatim>\<open>Powered off\<close>. A power-on that fails does not end the loop: the id
  is added to \<^verbatim>\<open>failed\<close> (which holds exactly the ids whose power-on failed, in order) and
  the next id is handled. \<^verbatim>\<open>started_vms\<close> is the number of successful power-on commands; it
  is logged. The value returned is \<^verbatim>\<open>True\<close> on every path, not that count.
\<close>

theorem startup_after_reboot:
  "(let a = fst (ssh_run e w c getallvms_cmd 60);
        output = snd (ssh_result a);
        vm_ids = parse_vm_ids output;
        w' = snd (start_vms_loop e c w)
    in fst (start_vms_after_reboot e c w) = True \<and>
       snd (start_vms_after_reboot e c w) = w' \<and>
       (if \<not> fst (ssh_result a) \<or> strip output = []
        then fst (start_vms_loop e c w) = None \<and>
             new_events w w' = [SshCommand c getallvms_cmd 60 a]
        else \<exists>ess. new_events w w' = SshCommand c getallvms_cmd 60 a # concat ess \<and>
               list_all2 (start_shape c) vm_ids ess \<and>
               fst (start_vms_loop e c w) =
                 Some (vm_ids, length (filter (is_started c) (concat ess)),
                       map fst (filter (\<lambda>x. poweron_failed (snd x)) (zip vm_ids ess)))))"
proof -
  obtain ok out w1 where q: "ssh_execute e c getallvms_cmd w = ((ok, out), w1)"
    by (cases "ssh_execute e c getallvms_cmd w") auto
  define a where "a = fst (ssh_run e w c getallvms_cmd 60)"
  have qa: "(ok, out) = ssh_result a \<and> trace w1 = trace w @ [(clock w, SshCommand c getallvms_cmd 60 a)]"
  proof -
    obtain d where o: "ssh_run e w c getallvms_cmd 60 = (a, d)"
      unfolding a_def by (cases "ssh_run e w c getallvms_cmd 60") simp
    have p: "perform (\<lambda>w. ssh_run e w c getallvms_cmd 60) (SshCommand c getallvms_cmd 60) w =
        (a, w\<lparr>clock := clock w + int d, trace := trace w @ [(clock w, SshCommand c getallvms_cmd 60 a)]\<rparr>)"
      by (simp add: perform_def o)
    from ssh_execute_facts[OF q] obtain a' where
      a': "(ok, out) = ssh_result a'" "trace w1 = trace w @ [(clock w, SshCommand c getallvms_cmd 60 a')]"
      by blast
    have "trace w1 = trace w @ [(clock w, SshCommand c getallvms_cmd 60 a)]"
      using q p by (cases a) (auto simp: ssh_execute_def ssh_execute_with_output_def split: if_splits)
    with a' show ?thesis by simp
  qed
  then have res: "ssh_result a = (ok, out)" and t1: "trace w1 = trace w @ [(clock w, SshCommand c getallvms_cmd 60 a)]"
    by simp_all
  have r: "fst (start_vms_after_reboot e c w) = True \<and>
      snd (start_vms_after_reboot e c w) = snd (start_vms_loop e c w)"
    by (simp add: start_vms_after_reboot_def split: prod.splits option.splits)
  show ?thesis
  proof (cases "\<not> ok \<or> strip out = []")
    case True
    with q have "start_vms_loop e c w = (None, w1)" by (auto simp: start_vms_loop_def)
    with t1 r True res show ?thesis
      unfolding Let_def a_def[symmetric] by (simp add: new_events_def)
  next
    case False
    obtain n' f' w' where f: "fold (start_vm e c) (parse_vm_ids out) (0, [], w1) = (n', f', w')"
      by (cases "fold (start_vm e c) (parse_vm_ids out) (0, [], w1)") auto
    from start_fold_spec[OF f] obtain ess where
      ess: "list_all2 (start_shape c) (parse_vm_ids out) ess"
      "map snd (drop (length (trace w1)) (trace w')) = concat ess"
      "length (trace w1) \<le> length (trace w')"
      "take (length (trace w1)) (trace w') = trace w1"
      "n' = 0 + length (filter (is_started c) (concat ess))"
      "f' = [] @ map fst (filter (\<lambda>x. poweron_failed (snd x)) (zip (parse_vm_ids out) ess))" by blast
    from ess(3,4) have tw': "trace w' = trace w1 @ drop (length (trace w1)) (trace w')"
      by (metis append_take_drop_id)
    have ne: "new_events w w' = SshCommand c getallvms_cmd 60 a # concat ess"
      unfolding new_events_def using ess(2) by (subst tw') (simp add: t1)
    from False q f have l: "start_vms_loop e c w = (Some (parse_vm_ids out, n', f'), w')"
      by (simp add: start_vms_loop_def)
    show ?thesis
      unfolding Let_def a_def[symmetric]
      using l ne ess(1,5,6) r False res
      by (simp add: exI[of _ ess])
  qed
qed

theorem startup_after_reboot_witness:
  "fst (ssh_result (fst (ssh_run three_off_env world0 2 getallvms_cmd 60))) \<and>
   parse_vm_ids (snd (ssh_result (fst (ssh_run three_off_env world0 2 getallvms_cmd 60)))) =
     [''1'', ''2'', ''3''] \<and>
   fst (start_vms_after_reboot three_off_env 2 world0) = True \<and>
   fst (start_vms_loop three_off_env 2 world0) = Some ([''1'', ''2'', ''3''], 2, [''1'']) \<and>
   new_events world0 (snd (start_vms_loop three_off_env 2 world0)) =
     [SshCommand 2 getallvms_cmd 60 (Exited 0 (''1'' @ [CHR 0x0A] @ ''2'' @ [CHR 0x0A] @ ''3'') []),
      SshCommand 2 (getstate_cmd ''1'') 60 (Exited 0 ''Powered off'' []),
      SshCommand 2 (poweron_cmd ''1'') 60 (Exited 1 [] ''failed''),
      SshCommand 2 (getstate_cmd ''2'') 60 (Exited 0 ''Powered off'' []),
      SshCommand 2 (poweron_cmd ''2'') 60 (Exited 0 [] []),
      SshCommand 2 (getstate_cmd ''3'') 60 (Exited 0 ''Powered off'' []),
      SshCommand 2 (poweron_cmd ''3'') 60 (Exited 0 [] [])] \<and>
   (\<exists>ess. new_events world0 (snd (start_vms_loop three_off_env 2 world0)) =
            SshCommand 2 getallvms_cmd 60 (fst (ssh_run three_off_env world0 2 getallvms_cmd 60)) # concat ess \<and>
          list_all2 (start_shape 2) [''1'', ''2'', ''3''] ess \<and>
          fst (start_vms_loop three_off_env 2 world0) =
            Some ([''1'', ''2'', ''3''], length (filter (is_started 2) (concat ess)),
                  map fst (filter (\<lambda>x. poweron_failed (snd x)) (zip [''1'', ''2'', ''3''] ess))))"
proof -
  have ok: "fst (ssh_result (fst (ssh_run three_off_env world0 2 getallvms_cmd 60)))"
    by (simp add: string_defs prim_defs op_defs vocab_defs calm_defs)
  have ne: "strip (snd (ssh_result (fst (ssh_run three_off_env world0 2 getallvms_cmd 60)))) \<noteq> []"
    by (simp add: string_defs prim_defs op_defs vocab_defs calm_defs)
  have ids: "parse_vm_ids (snd (ssh_result (fst (ssh_run three_off_env world0 2 getallvms_cmd 60)))) =
     [''1'', ''2'', ''3'']"
    by (simp add: string_defs prim_defs op_defs vocab_defs calm_defs)
  have res: "fst (start_vms_loop three_off_env 2 world0) = Some ([''1'', ''2'', ''3''], 2, [''1''])"
    by (simp add: string_defs prim_defs op_defs calm_defs)
  have evs: "new_events world0 (snd (start_vms_loop three_off_env 2 world0)) =
     [SshCommand 2 getallvms_cmd 60 (Exited 0 (''1'' @ [CHR 0x0A] @ ''2'' @ [CHR 0x0A] @ ''3'') []),
      SshCommand 2 (getstate_cmd ''1'') 60 (Exited 0 ''Powered off'' []),
      SshCommand 2 (poweron_cmd ''1'') 60 (Exited 1 [] ''failed''),
      SshCommand 2 (getstate_cmd ''2'') 60 (Exited 0 ''Powered off'' []),
      SshCommand 2 (poweron_cmd ''2'') 60 (Exited 0 [] []),
      SshCommand 2 (getstate_cmd ''3'') 60 (Exited 0 ''Powered off'' []),
      SshCommand 2 (poweron_cmd ''3'') 60 (Exited 0 [] [])]"
    by (simp add: string_defs prim_defs op_defs calm_defs)
  note t = startup_after_reboot[of three_off_env world0 2, unfolded Let_def]
  from t have r: "fst (start_vms_after_reboot three_off_env 2 world0) = True" by blast
  from t ok ne have ex: "\<exists>ess. new_events world0 (snd (start_vms_loop three_off_env 2 world0)) =
            SshCommand 2 getallvms_cmd 60 (fst (ssh_run three_off_env world0 2 getallvms_cmd 60)) # concat ess \<and>
          list_all2 (start_shape 2) [''1'', ''2'', ''3''] ess \<and>
          fst (start_vms_loop three_off_env 2 world0) =
            Some ([''1'', ''2'', ''3''], length (filter (is_started 2) (concat ess)),
                  map fst (filter (\<lambda>x. poweron_failed (snd x)) (zip [''1'', ''2'', ''3''] ess)))"
    unfolding ids by simp
  from ok ids r res evs ex show ?thesis by (intro conjI)
qed

theorem startup_after_reboot_counterexample:
  "fst (start_vms_loop two_off_env 2 world0) = Some ([''1'', ''2''], 2, []) \<and>
   length (filter (is_started 2)
     (new_events world0 (snd (start_vms_after_reboot two_off_env 2 world0)))) = 2 \<and>
   fst (start_vms_after_reboot two_off_env 2 world0) = True \<and>
   (of_bool (fst (start_vms_after_reboot two_off_env 2 world0)) :: nat) \<noteq> 2"
  by (simp add: string_defs prim_defs op_defs vocab_defs calm_defs)

text \<open>
  C1. Once steps 1 to 6 of \<^verbatim>\<open>process_host\<close> have succeeded, with \<open>clustered\<close> the answer of
  \<^verbatim>\<open>is_host_in_cluster\<close> for the host object, the topology branch (lines 938-962) leaves the
  following markers in the trace. Clustered: \<^verbatim>\<open>enter_maintenance_mode\<close> is invoked first; when it
  returns \<^verbatim>\<open>False\<close> nothing else is invoked, and when it returns \<^verbatim>\<open>True\<close>
  \<^verbatim>\<open>check_and_shutdown_vms\<close> is invoked after it. Standalone: \<^verbatim>\<open>check_and_shutdown_vms\<close> is
  invoked and has returned before \<^verbatim>\<open>enter_maintenance_mode\<close> is invoked. Between an invocation
  and its return are the events of that method alone (\<open>A\<close>, \<open>B\<close>). In both orders the result
  \<open>sd\<close> of the shutdown is not tested: the host run goes on to the installation stage exactly
  when maintenance mode was entered (\<open>mm\<close>), and otherwise \<^verbatim>\<open>process_host\<close> returns
  \<^verbatim>\<open>False\<close> with the maintenance-mode message after the \<^verbatim>\<open>finally\<close> clause.
\<close>

theorem topology_decides_order:
  assumes s16: "process_host_steps_1_6 e p host w0 = (Inr (si, h, clustered, c, ds), l, w)"
    and s78: "process_host_steps_7_8 e h clustered c w = (res, w')"
  shows "\<exists>mm v v' A x x'.
           is_host_in_cluster e h x = (clustered, x') \<and>
           enter_maintenance_mode e h 0 v = (mm, v') \<and> A = new_events v v' \<and>
           list_all (\<lambda>ev. \<not> is_marker ev) A \<and>
           (if clustered \<and> \<not> mm
            then new_events w w' =
                   Invoke M_enter_maintenance_mode # A @ [Return M_enter_maintenance_mode False]
            else \<exists>sd u u' B.
                   check_and_shutdown_vms e c 180 u = (sd, u') \<and> B = new_events u u' \<and>
                   list_all (\<lambda>ev. \<not> is_marker ev) B \<and>
                   new_events w w' =
                     (if clustered
                      then Invoke M_enter_maintenance_mode # A @
                           [Return M_enter_maintenance_mode True, Invoke M_check_and_shutdown_vms] @
                           B @ [Return M_check_and_shutdown_vms sd]
                      else Invoke M_check_and_shutdown_vms # B @
                           [Return M_check_and_shutdown_vms sd, Invoke M_enter_maintenance_mode] @
                           A @ [Return M_enter_maintenance_mode mm])) \<and>
           (if mm
            then res = None \<and>
                 process_host_try e p host w0 =
                   process_host_steps_9_18 e p host (si, h, clustered, c, ds) l w'
            else res = Some Msg_maintenance_failed \<and>
                 process_host e p host w0 =
                   ((False, Msg_maintenance_failed), finally_close e l w'))"
proof -
  from steps_1_6_topology[OF s16] obtain x x' where
    t: "is_host_in_cluster e h x = (clustered, x')" by blast
  from steps_7_8_shape[OF s78] obtain mm v v' A where
    m: "enter_maintenance_mode e h 0 v = (mm, v')" "A = new_events v v'"
       "list_all (\<lambda>ev. \<not> is_marker ev) A"
       "res = (if mm then None else Some Msg_maintenance_failed)"
    and sh: "if clustered \<and> \<not> mm
            then new_events w w' =
                   Invoke M_enter_maintenance_mode # A @ [Return M_enter_maintenance_mode False]
            else \<exists>sd u u' B.
                   check_and_shutdown_vms e c 180 u = (sd, u') \<and> B = new_events u u' \<and>
                   list_all (\<lambda>ev. \<not> is_marker ev) B \<and>
                   new_events w w' =
                     (if clustered
                      then Invoke M_enter_maintenance_mode # A @
                           [Return M_enter_maintenance_mode True, Invoke M_check_and_shutdown_vms] @
                           B @ [Return M_check_and_shutdown_vms sd]
                      else Invoke M_check_and_shutdown_vms # B @
                           [Return M_check_and_shutdown_vms sd, Invoke M_enter_maintenance_mode] @
                           A @ [Return M_enter_maintenance_mode mm])"
    by blast
  have fin: "if mm
            then res = None \<and>
                 process_host_try e p host w0 =
                   process_host_steps_9_18 e p host (si, h, clustered, c, ds) l w'
            else res = Some Msg_maintenance_failed \<and>
                 process_host e p host w0 =
                   ((False, Msg_maintenance_failed), finally_close e l w')"
    using m(4) by (simp add: process_host_def process_host_try_def s16 s78)
  show ?thesis
    apply (rule exI[of _ mm])
    apply (rule exI[of _ v])
    apply (rule exI[of _ v'])
    apply (rule exI[of _ A])
    apply (rule exI[of _ x])
    apply (rule exI[of _ x'])
    apply (intro conjI)
         apply (rule t)
        apply (rule m(1))
       apply (rule m(2))
      apply (rule m(3))
     apply (rule sh)
    apply (rule fin)
    done
qed

theorem topology_decides_order_witness:
  "(let s = process_host_steps_1_6 stuck_env patcher1 host1 world0; w = snd (snd s);
        r = process_host_steps_7_8 stuck_env 7 False 2 w
    in fst s = Inr (1, 7, False, 2, ''/vmfs/volumes/ds1'') \<and> fst r = None \<and>
       new_events w (snd r) =
         [Invoke M_check_and_shutdown_vms,
          SshCommand 2 getallvms_cmd 60 (Exited 0 ''1'' []),
          SshCommand 2 (getstate_cmd ''1'') 60 (Exited 0 ''Powered on'' []),
          SshCommand 2 (shutdown_cmd ''1'') 60 (Exited 0 [] []),
          Sleep 5,
          SshCommand 2 (getstate_cmd ''1'') 60 (Exited 0 ''Powered on'' []),
          SshCommand 2 (poweroff_cmd ''1'') 60 (Exited 1 [] ''busy''),
          SshCommand 2 getallvms_cmd 60 (Exited 0 ''1'' []),
          Return M_check_and_shutdown_vms False,
          Invoke M_enter_maintenance_mode,
          ReadInMaintenanceMode 7 (Ok False), EnterMaintenanceModeCall 7 0 (Ok ()),
          ReadTaskState (Ok Success), ReadTaskState (Ok Success),
          Return M_enter_maintenance_mode True] \<and>
       process_host_try stuck_env patcher1 host1 world0 =
         process_host_steps_9_18 stuck_env patcher1 host1 (1, 7, False, 2, ''/vmfs/volumes/ds1'')
           (fst (snd s)) (snd r)) \<and>
   (let s = process_host_steps_1_6 refusing_cluster_env patcher1 host1 world0; w = snd (snd s);
        r = process_host_steps_7_8 refusing_cluster_env 7 True 2 w
    in fst s = Inr (1, 7, True, 2, ''/vmfs/volumes/ds1'') \<and>
       fst r = Some Msg_maintenance_failed \<and>
       new_events w (snd r) =
         [Invoke M_enter_maintenance_mode,
          ReadInMaintenanceMode 7 (Ok False), EnterMaintenanceModeCall 7 0 (Raised ''denied''),
          Return M_enter_maintenance_mode False] \<and>
       fst (process_host refusing_cluster_env patcher1 host1 world0) =
         (False, Msg_maintenance_failed)) \<and>
   (let s = process_host_steps_1_6 stuck_cluster_env patcher1 host1 world0; w = snd (snd s);
        r = process_host_steps_7_8 stuck_cluster_env 7 True 2 w
    in fst s = Inr (1, 7, True, 2, ''/vmfs/volumes/ds1'') \<and> fst r = None \<and>
       new_events w (snd r) =
         [Invoke M_enter_maintenance_mode,
          ReadInMaintenanceMode 7 (Ok False), EnterMaintenanceModeCall 7 0 (Ok ()),
          ReadTaskState (Ok Success), ReadTaskState (Ok Success),
          Return M_enter_maintenance_mode True,
          Invoke M_check_and_shutdown_vms,
          SshCommand 2 getallvms_cmd 60 (Exited 0 ''1'' []),
          SshCommand 2 (getstate_cmd ''1'') 60 (Exited 0 ''Powered on'' []),
          SshCommand 2 (shutdown_cmd ''1'') 60 (Exited 0 [] []),
          Sleep 5,
          SshCommand 2 (getstate_cmd ''1'') 60 (Exited 0 ''Powered on'' []),
          SshCommand 2 (poweroff_cmd ''1'') 60 (Exited 1 [] ''busy''),
          SshCommand 2 getallvms_cmd 60 (Exited 0 ''1'' []),
          Return M_check_and_shutdown_vms False] \<and>
       process_host_try stuck_cluster_env patcher1 host1 world0 =
         process_host_steps_9_18 stuck_cluster_env patcher1 host1
           (1, 7, True, 2, ''/vmfs/volumes/ds1'') (fst (snd s)) (snd r))"
proof -
  let ?ds = "''/vmfs/volumes/ds1''"
  let ?s1 = "process_host_steps_1_6 stuck_env patcher1 host1 world0"
  let ?r1 = "process_host_steps_7_8 stuck_env 7 False 2 (snd (snd ?s1))"
  let ?s2 = "process_host_steps_1_6 refusing_cluster_env patcher1 host1 world0"
  let ?r2 = "process_host_steps_7_8 refusing_cluster_env 7 True 2 (snd (snd ?s2))"
  let ?s3 = "process_host_steps_1_6 stuck_cluster_env patcher1 host1 world0"
  let ?r3 = "process_host_steps_7_8 stuck_cluster_env 7 True 2 (snd (snd ?s3))"
  have a1: "fst ?s1 = Inr (1, 7, False, 2, ?ds)"
    by (simp add: string_defs prim_defs op_defs vocab_defs calm_defs host_run_defs Let_def)
  have b1: "fst ?r1 = None"
    by (simp add: string_defs prim_defs op_defs vocab_defs calm_defs host_run_defs Let_def)
  have c1: "new_events (snd (snd ?s1)) (snd ?r1) =
         [Invoke M_check_and_shutdown_vms,
          SshCommand 2 getallvms_cmd 60 (Exited 0 ''1'' []),
          SshCommand 2 (getstate_cmd ''1'') 60 (Exited 0 ''Powered on'' []),
          SshCommand 2 (shutdown_cmd ''1'') 60 (Exited 0 [] []),
          Sleep 5,
          SshCommand 2 (getstate_cmd ''1'') 60 (Exited 0 ''Powered on'' []),
          SshCommand 2 (poweroff_cmd ''1'') 60 (Exited 1 [] ''busy''),
          SshCommand 2 getallvms_cmd 60 (Exited 0 ''1'' []),
          Return M_check_and_shutdown_vms False,
          Invoke M_enter_maintenance_mode,
          ReadInMaintenanceMode 7 (Ok False), EnterMaintenanceModeCall 7 0 (Ok ()),
          ReadTaskState (Ok Success), ReadTaskState (Ok Success),
          Return M_enter_maintenance_mode True]"
    by (simp add: string_defs prim_defs op_defs vocab_defs calm_defs host_run_defs Let_def)
  have s1: "?s1 = (Inr (1, 7, False, 2, ?ds), fst (snd ?s1), snd (snd ?s1))"
    using a1 by (metis prod.collapse)
  from topology_decides_order[OF s1 prod.collapse[symmetric]] obtain mm1 where
    "if mm1
     then fst ?r1 = None \<and>
          process_host_try stuck_env patcher1 host1 world0 =
            process_host_steps_9_18 stuck_env patcher1 host1 (1, 7, False, 2, ?ds)
              (fst (snd ?s1)) (snd ?r1)
     else fst ?r1 = Some Msg_maintenance_failed \<and>
          process_host stuck_env patcher1 host1 world0 =
            ((False, Msg_maintenance_failed), finally_close stuck_env (fst (snd ?s1)) (snd ?r1))"
    by blast
  with b1 have d1: "process_host_try stuck_env patcher1 host1 world0 =
            process_host_steps_9_18 stuck_env patcher1 host1 (1, 7, False, 2, ?ds)
              (fst (snd ?s1)) (snd ?r1)"
    by (cases mm1) simp_all
  have a2: "fst ?s2 = Inr (1, 7, True, 2, ?ds)"
    by (simp add: string_defs prim_defs op_defs vocab_defs calm_defs host_run_defs Let_def)
  have b2: "fst ?r2 = Some Msg_maintenance_failed"
    by (simp add: string_defs prim_defs op_defs vocab_defs calm_defs host_run_defs Let_def)
  have c2: "new_events (snd (snd ?s2)) (snd ?r2) =
         [Invoke M_enter_maintenance_mode,
          ReadInMaintenanceMode 7 (Ok False), EnterMaintenanceModeCall 7 0 (Raised ''denied''),
          Return M_enter_maintenance_mode False]"
    by (simp add: string_defs prim_defs op_defs vocab_defs calm_defs host_run_defs Let_def)
  have s2: "?s2 = (Inr (1, 7, True, 2, ?ds), fst (snd ?s2), snd (snd ?s2))"
    using a2 by (metis prod.collapse)
  from topology_decides_order[OF s2 prod.collapse[symmetric]] obtain mm2 where
    "if mm2
     then fst ?r2 = None \<and>
          process_host_try refusing_cluster_env patcher1 host1 world0 =
            process_host_steps_9_18 refusing_cluster_env patcher1 host1 (1, 7, True, 2, ?ds)
              (fst (snd ?s2)) (snd ?r2)
     else fst ?r2 = Some Msg_maintenance_failed \<and>
          process_host refusing_cluster_env patcher1 host1 world0 =
            ((False, Msg_maintenance_failed),
             finally_close refusing_cluster_env (fst (snd ?s2)) (snd ?r2))"
    by blast
  with b2 have d2: "fst (process_host refusing_cluster_env patcher1 host1 world0) =
                      (False, Msg_maintenance_failed)"
    by (cases mm2) simp_all
  have a3: "fst ?s3 = Inr (1, 7, True, 2, ?ds)"
    by (simp add: string_defs prim_defs op_defs vocab_defs calm_defs host_run_defs Let_def)
  have b3: "fst ?r3 = None"
    by (simp add: string_defs prim_defs op_defs vocab_defs calm_defs host_run_defs Let_def)
  have c3: "new_events (snd (snd ?s3)) (snd ?r3) =
         [Invoke M_enter_maintenance_mode,
          ReadInMaintenanceMode 7 (Ok False), EnterMaintenanceModeCall 7 0 (Ok ()),
          ReadTaskState (Ok Success), ReadTaskState (Ok Success),
          Return M_enter_maintenance_mode True,
          Invoke M_check_and_shutdown_vms,
          SshCommand 2 getallvms_cmd 60 (Exited 0 ''1'' []),
          SshCommand 2 (getstate_cmd ''1'') 60 (Exited 0 ''Powered on'' []),
          SshCommand 2 (shutdown_cmd ''1'') 60 (Exited 0 [] []),
          Sleep 5,
          SshCommand 2 (getstate_cmd ''1'') 60 (Exited 0 ''Powered on'' []),
          SshCommand 2 (poweroff_cmd ''1'') 60 (Exited 1 [] ''busy''),
          SshCommand 2 getallvms_cmd 60 (Exited 0 ''1'' []),
          Return M_check_and_shutdown_vms False]"
    by (simp add: string_defs prim_defs op_defs vocab_defs calm_defs host_run_defs Let_def)
  have s3: "?s3 = (Inr (1, 7, True, 2, ?ds), fst (snd ?s3), snd (snd ?s3))"
    using a3 by (metis prod.collapse)
  from topology_decides_order[OF s3 prod.collapse[symmetric]] obtain mm3 where
    "if mm3
     then fst ?r3 = None \<and>
          process_host_try stuck_cluster_env patcher1 host1 world0 =
            process_host_steps_9_18 stuck_cluster_env patcher1 host1 (1, 7, True, 2, ?ds)
              (fst (snd ?s3)) (snd ?r3)
     else fst ?r3 = Some Msg_maintenance_failed \<and>
          process_host stuck_cluster_env patcher1 host1 world0 =
            ((False, Msg_maintenance_failed),
             finally_close stuck_cluster_env (fst (snd ?s3)) (snd ?r3))"
    by blast
  with b3 have d3: "process_host_try stuck_cluster_env patcher1 host1 world0 =
            process_host_steps_9_18 stuck_cluster_env patcher1 host1 (1, 7, True, 2, ?ds)
              (fst (snd ?s3)) (snd ?r3)"
    by (cases mm3) simp_all
  show ?thesis
    unfolding Let_def
    by (intro conjI a1 b1 c1 d1 a2 b2 c2 d2 a3 b3 c3 d3)
qed

end
